theory Spec2Isabelle
  imports Complex_Main "HOL-Library.AList"
begin

section \<open>Python values\<close>

text \<open>
  A Python \<open>str\<close> that is only compared (entity texts, labels, keys, messages) is a
  \<open>string\<close>. The document text, whose characters are counted and split, is a list of
  Unicode code points, as \<open>len\<close> and \<open>str.split\<close> see it. Python floats are
  idealised as rationals; unbounded Python ints are \<open>int\<close> or \<open>nat\<close>.
\<close>

type_synonym unicode = "nat list"

datatype exception = ZeroDivisionError | InvalidId | Raised string

fun str_of :: "exception \<Rightarrow> string" where
  "str_of ZeroDivisionError = ''division by zero''"
| "str_of InvalidId = ''invalid ObjectId''"
| "str_of (Raised m) = m"

definition truediv :: "rat \<Rightarrow> rat \<Rightarrow> exception + rat" where
  \<comment> \<open>Python's \<open>a / b\<close>\<close>
  "truediv a b = (if b = 0 then Inl ZeroDivisionError else Inr (a / b))"

definition isspace :: "nat \<Rightarrow> bool" where
  \<comment> \<open>the code points at which \<open>str.split()\<close> separates\<close>
  "isspace c \<longleftrightarrow>
     (9 \<le> c \<and> c \<le> 13) \<or> (28 \<le> c \<and> c \<le> 32) \<or> c = 133 \<or> c = 160 \<or> c = 5760 \<or>
     (8192 \<le> c \<and> c \<le> 8202) \<or> c = 8232 \<or> c = 8233 \<or> c = 8239 \<or> c = 8287 \<or> c = 12288"

fun split_ws :: "unicode \<Rightarrow> unicode \<Rightarrow> unicode list" where
  \<comment> \<open>\<open>text.split()\<close>: runs of whitespace separate, no empty word is produced;
      the first argument is the word being read, reversed\<close>
  "split_ws cur [] = (if cur = [] then [] else [rev cur])"
| "split_ws cur (c # cs) =
     (if isspace c then (if cur = [] then split_ws [] cs else rev cur # split_ws [] cs)
      else split_ws (c # cur) cs)"

fun split_sep :: "nat \<Rightarrow> unicode \<Rightarrow> unicode \<Rightarrow> unicode list" where
  \<comment> \<open>\<open>text.split(sep)\<close> for a one-character separator: every occurrence separates\<close>
  "split_sep sep cur [] = [rev cur]"
| "split_sep sep cur (c # cs) =
     (if c = sep then rev cur # split_sep sep [] cs else split_sep sep (c # cur) cs)"

definition full_stop :: nat where
  "full_stop = 46"

section \<open>Entities, dates and the timeline builder\<close>

record entity =
  e_text :: string
  e_label :: string
  e_start :: int
  e_end :: int
  e_description :: "string option"

record date_item =
  d_text :: string
  d_start :: int
  d_end :: int

record timeline_entry =
  date :: string
  position :: int
  related_entities :: "string list"
  context_tag :: string

definition nearby_entities :: "date_item \<Rightarrow> entity list \<Rightarrow> entity list" where
  "nearby_entities date_item entities =
     filter (\<lambda>e. \<bar>e_start e - d_start date_item\<bar> < 100) entities"

definition build_timeline :: "date_item list \<Rightarrow> entity list \<Rightarrow> timeline_entry list" where
  \<comment> \<open>\<open>AnalysisEngine._build_timeline\<close>; \<open>list.sort\<close> is stable, as \<open>sort_key\<close> is\<close>
  "build_timeline dates entities =
     sort_key position
       (map (\<lambda>date_item.
               \<lparr>date = d_text date_item,
                position = d_start date_item,
                related_entities = map e_text (take 5 (nearby_entities date_item entities)),
                context_tag = ''event''\<rparr>) dates)"

definition attached_spec :: "date_item \<Rightarrow> entity list \<Rightarrow> nat \<Rightarrow> bool" where
  \<comment> \<open>the specification's wording: the entity at index \<open>i\<close> is within 100 characters of
      the date and fewer than 5 entities before it are\<close>
  "attached_spec d es i \<longleftrightarrow>
     i < length es \<and> \<bar>e_start (es ! i) - d_start d\<bar> < 100 \<and>
     length (filter (\<lambda>e. \<bar>e_start e - d_start d\<bar> < 100) (take i es)) < 5"

section \<open>Text statistics\<close>

record text_statistics =
  total_characters :: nat
  total_words :: nat
  total_sentences :: nat
  avg_word_length :: rat
  avg_sentence_length :: rat
  unique_words :: nat
  vocabulary_richness :: rat

definition calculate_text_statistics :: "unicode \<Rightarrow> exception + text_statistics" where
  \<comment> \<open>\<open>AnalysisEngine._calculate_text_statistics\<close>; \<open>len(set(words))\<close> is the number of
      distinct words\<close>
  "calculate_text_statistics text_in =
     (let words = split_ws [] text_in;
          sentences = split_sep full_stop [] text_in
      in case (if words \<noteq> []
               then truediv (of_nat (sum_list (map length words))) (of_nat (length words))
               else Inr 0) of
           Inl e \<Rightarrow> Inl e
         | Inr awl \<Rightarrow>
      (case (if sentences \<noteq> []
             then truediv (of_nat (length words)) (of_nat (length sentences))
             else Inr 0) of
           Inl e \<Rightarrow> Inl e
         | Inr asl \<Rightarrow>
      (case (if words \<noteq> []
             then truediv (of_nat (length (remdups words))) (of_nat (length words))
             else Inr 0) of
           Inl e \<Rightarrow> Inl e
         | Inr vr \<Rightarrow>
             Inr \<lparr>total_characters = length text_in,
                  total_words = length words,
                  total_sentences = length sentences,
                  avg_word_length = awl,
                  avg_sentence_length = asl,
                  unique_words = length (remdups words),
                  vocabulary_richness = vr\<rparr>)))"

section \<open>The knowledge graph builder\<close>

text \<open>
  The builder works on a \<open>networkx.DiGraph\<close>. The library is modelled by what the
  builder uses of it: the node dictionary and the successor dictionary are
  insertion-ordered, so they are association lists updated in place
  (\<open>AList.update\<close> keeps the position of an existing key and appends a new one);
  \<open>add_node\<close> on an existing key overwrites its attributes; \<open>add_edge\<close> creates
  missing endpoints without attributes and overwrites the data of an existing
  (source, target) pair; \<open>G.edges\<close> iterates the nodes in insertion order and, for each,
  its out-edges in insertion order; \<open>degree\<close> is in-degree plus out-degree;
  \<open>nx.density\<close> of a directed graph is \<open>0\<close> when there is no edge or at most one node
  and \<open>m / (n * (n - 1))\<close> otherwise; \<open>nx.is_weakly_connected\<close> asks whether every
  node is reached from the first one when edge directions are ignored.
\<close>

record relationship =
  r_subject :: string
  r_relation :: "string option"
  r_object :: string

record node_attrs =
  a_type :: "string option"
  a_label :: "string option"

record digraph =
  g_node :: "(string \<times> node_attrs) list"
  g_adj :: "((string \<times> string) \<times> string option) list"

definition DiGraph :: digraph where
  "DiGraph = \<lparr>g_node = [], g_adj = []\<rparr>"

definition has_node :: "digraph \<Rightarrow> string \<Rightarrow> bool" where
  "has_node G n \<longleftrightarrow> n \<in> set (map fst (g_node G))"

definition add_node :: "string \<Rightarrow> string \<Rightarrow> string \<Rightarrow> digraph \<Rightarrow> digraph" where
  "add_node n ty lab G =
     G\<lparr>g_node := AList.update n \<lparr>a_type = Some ty, a_label = Some lab\<rparr> (g_node G)\<rparr>"

definition touch_node :: "string \<Rightarrow> digraph \<Rightarrow> digraph" where
  \<comment> \<open>what \<open>add_edge\<close> does to an endpoint: created without attributes when missing\<close>
  "touch_node n G =
     (if has_node G n then G
      else G\<lparr>g_node := g_node G @ [(n, \<lparr>a_type = None, a_label = None\<rparr>)]\<rparr>)"

definition add_edge :: "string \<Rightarrow> string \<Rightarrow> string \<Rightarrow> digraph \<Rightarrow> digraph" where
  "add_edge u v rel G =
     (let G' = touch_node v (touch_node u G)
      in G'\<lparr>g_adj := AList.update (u, v) (Some rel) (g_adj G')\<rparr>)"

definition edges_of :: "digraph \<Rightarrow> (string \<times> string \<times> string option) list" where
  \<comment> \<open>\<open>G.edges(data=True)\<close>\<close>
  "edges_of G =
     concat (map (\<lambda>n. map (\<lambda>((u, v), dd). (u, v, dd)) (filter (\<lambda>((u, v), dd). u = n) (g_adj G)))
                 (map fst (g_node G)))"

definition number_of_nodes :: "digraph \<Rightarrow> nat" where
  "number_of_nodes G = length (g_node G)"

definition number_of_edges :: "digraph \<Rightarrow> nat" where
  "number_of_edges G = length (g_adj G)"

definition degree :: "digraph \<Rightarrow> string \<Rightarrow> nat" where
  "degree G n = length (filter (\<lambda>((u, v), dd). u = n) (g_adj G))
              + length (filter (\<lambda>((u, v), dd). v = n) (g_adj G))"

definition density :: "digraph \<Rightarrow> rat" where
  "density G =
     (let n = number_of_nodes G; m = number_of_edges G
      in if m = 0 \<or> n \<le> 1 then 0 else of_nat m / of_nat (n * (n - 1)))"

fun weak_reach :: "nat \<Rightarrow> ((string \<times> string) \<times> string option) list \<Rightarrow> string list \<Rightarrow> string list" where
  "weak_reach 0 es seen = seen"
| "weak_reach (Suc k) es seen =
     weak_reach k es
       (remdups (seen @ map (snd \<circ> fst) (filter (\<lambda>((u, v), dd). u \<in> set seen) es)
                      @ map (fst \<circ> fst) (filter (\<lambda>((u, v), dd). v \<in> set seen) es)))"

definition is_weakly_connected :: "digraph \<Rightarrow> bool" where
  \<comment> \<open>only called on a graph with a node; as many rounds as there are nodes reach
      everything reachable\<close>
  "is_weakly_connected G =
     (case g_node G of
        [] \<Rightarrow> False
      | (n, a) # ns \<Rightarrow> set (map fst (g_node G)) \<subseteq> set (weak_reach (length (g_node G)) (g_adj G) [n]))"

definition create_implicit_connections :: "digraph \<Rightarrow> entity list \<Rightarrow> digraph" where
  \<comment> \<open>\<open>KnowledgeGraphBuilder._create_implicit_connections\<close>\<close>
  "create_implicit_connections G entities =
     (let persons = map e_text (filter (\<lambda>e. e_label e = ''PERSON'') entities);
          orgs = map e_text (filter (\<lambda>e. e_label e = ''ORG'') entities);
          locations = map e_text (filter (\<lambda>e. e_label e = ''GPE'') entities);
          G1 = fold (\<lambda>person. fold (\<lambda>org G'.
                       if has_node G' person \<and> has_node G' org
                       then add_edge person org ''associated_with'' G' else G') (take 3 orgs))
                    (take 5 persons) G
      in fold (\<lambda>org. fold (\<lambda>loc G'.
                       if has_node G' org \<and> has_node G' loc
                       then add_edge org loc ''located_in'' G' else G') (take 3 locations))
              (take 5 orgs) G1)"

record node_dict =
  n_id :: string
  n_label :: string
  n_type :: string
  n_size :: nat

record edge_dict =
  source :: string
  target :: string
  relation :: string
  label :: string

definition get_or :: "'a option \<Rightarrow> 'a \<Rightarrow> 'a" where
  \<comment> \<open>\<open>d.get(key, default)\<close> on the optional value of a key\<close>
  "get_or v d = (case v of None \<Rightarrow> d | Some x \<Rightarrow> x)"

record graph_statistics =
  total_nodes :: nat
  total_edges :: nat
  entity_types :: "(string \<times> nat) list"
  s_density :: rat
  is_connected :: bool

record graph_data =
  nodes :: "node_dict list"
  edges :: "edge_dict list"
  statistics :: "graph_statistics option"
  error :: "string option"

definition graph_to_dict :: "digraph \<Rightarrow> graph_data" where
  \<comment> \<open>\<open>KnowledgeGraphBuilder._graph_to_dict\<close>; the statistics are added by the caller\<close>
  "graph_to_dict G =
     \<lparr>nodes = map (\<lambda>(node_id, data).
                 \<lparr>n_id = node_id,
                  n_label = get_or (a_label data) node_id,
                  n_type = get_or (a_type data) ''unknown'',
                  n_size = degree G node_id + 5\<rparr>) (g_node G),
      edges = map (\<lambda>(s, t, data).
                 \<lparr>source = s, target = t,
                  relation = get_or data ''related_to'',
                  label = get_or data ''''\<rparr>) (edges_of G),
      statistics = None,
      error = None\<rparr>"

record KnowledgeGraphBuilder =
  graph :: "digraph option"

definition add_entity_nodes :: "entity list \<Rightarrow> digraph \<times> (string \<times> string list) list
     \<Rightarrow> digraph \<times> (string \<times> string list) list" where
  \<comment> \<open>the first loop of \<open>build_graph\<close>, on the graph and the \<open>entity_types\<close> dictionary\<close>
  "add_entity_nodes entities =
     fold (\<lambda>entity (G, entity_types).
             (add_node (e_text entity) (e_label entity) (e_text entity) G,
              map_default (e_label entity) [e_text entity] (\<lambda>l. l @ [e_text entity]) entity_types))
          entities"

definition add_relationship_edges :: "relationship list option \<Rightarrow> digraph \<Rightarrow> digraph" where
  \<comment> \<open>the second loop of \<open>build_graph\<close>; \<open>None\<close> and the empty list are both falsy\<close>
  "add_relationship_edges relationships G =
     (case relationships of
        None \<Rightarrow> G
      | Some rels \<Rightarrow>
          fold (\<lambda>rel G'.
                  if has_node G' (r_subject rel) \<and> has_node G' (r_object rel)
                  then add_edge (r_subject rel) (r_object rel) (get_or (r_relation rel) ''related_to'') G'
                  else G') rels G)"

definition build_graph ::
  "KnowledgeGraphBuilder \<Rightarrow> entity list \<Rightarrow> relationship list option
     \<Rightarrow> graph_data \<times> KnowledgeGraphBuilder" where
  \<comment> \<open>\<open>KnowledgeGraphBuilder.build_graph\<close>. Entities and relationships are records that
      carry every key the body reads, so no statement of the \<open>try\<close> block raises and the
      \<open>except\<close> branch (empty graph with an error message) is not reached\<close>
  "build_graph self entities relationships =
     (let (G0, entity_types) = add_entity_nodes entities (DiGraph, []);
          G1 = add_relationship_edges relationships G0;
          G = (if relationships = None \<or> relationships = Some [] \<or> number_of_edges G1 = 0
               then create_implicit_connections G1 entities else G1);
          graph_data = graph_to_dict G
      in (graph_data\<lparr>statistics := Some
             \<lparr>total_nodes = number_of_nodes G,
              total_edges = number_of_edges G,
              entity_types = map (\<lambda>(k, v). (k, length v)) entity_types,
              s_density = density G,
              is_connected = (if number_of_nodes G > 0 then is_weakly_connected G else False)\<rparr>\<rparr>,
          self\<lparr>graph := Some G\<rparr>))"

subsection \<open>Auxiliary definitions for the graph properties\<close>

text \<open>
  \<open>person_org_spec\<close>, \<open>org_location_spec\<close>, \<open>implicit_edges_spec\<close> and
  \<open>explicit_edges_spec\<close> follow the specification's wording; the others name parts of
  \<open>build_graph\<close> so that lemmas can speak about them.
\<close>

definition apply_edges :: "(string \<times> string \<times> string) list
    \<Rightarrow> ((string \<times> string) \<times> string option) list \<Rightarrow> ((string \<times> string) \<times> string option) list" where
  "apply_edges ts = fold (\<lambda>(u, v, r). AList.update (u, v) (Some r)) ts"

definition person_org_spec :: "entity list \<Rightarrow> (string \<times> string \<times> string) list" where
  "person_org_spec entities =
     concat (map (\<lambda>p. map (\<lambda>org. (p, org, ''associated_with''))
                         (take 3 (map e_text (filter (\<lambda>e. e_label e = ''ORG'') entities))))
                 (take 5 (map e_text (filter (\<lambda>e. e_label e = ''PERSON'') entities))))"

definition org_location_spec :: "entity list \<Rightarrow> (string \<times> string \<times> string) list" where
  "org_location_spec entities =
     concat (map (\<lambda>org. map (\<lambda>loc. (org, loc, ''located_in''))
                         (take 3 (map e_text (filter (\<lambda>e. e_label e = ''GPE'') entities))))
                 (take 5 (map e_text (filter (\<lambda>e. e_label e = ''ORG'') entities))))"

definition implicit_edges_spec :: "entity list \<Rightarrow> (string \<times> string \<times> string) list" where
  \<comment> \<open>the first 5 PERSON mentions to the first 3 ORG mentions, then the first 5 ORG
      mentions to the first 3 GPE mentions\<close>
  "implicit_edges_spec entities = person_org_spec entities @ org_location_spec entities"

definition guarded_add :: "string \<times> string \<times> string \<Rightarrow> digraph \<Rightarrow> digraph" where
  "guarded_add = (\<lambda>(u, v, r) G. if has_node G u \<and> has_node G v then add_edge u v r G else G)"

definition final_graph :: "entity list \<Rightarrow> relationship list option \<Rightarrow> digraph" where
  \<comment> \<open>the graph \<open>G\<close> that \<open>build_graph\<close> converts and stores\<close>
  "final_graph entities relationships =
     (let G1 = add_relationship_edges relationships (fst (add_entity_nodes entities (DiGraph, [])))
      in if relationships = None \<or> relationships = Some [] \<or> number_of_edges G1 = 0
         then create_implicit_connections G1 entities else G1)"

definition explicit_edges_spec :: "entity list \<Rightarrow> relationship list \<Rightarrow> (string \<times> string \<times> string) list" where
  \<comment> \<open>the relationships whose subject and object are both entity texts\<close>
  "explicit_edges_spec entities rels =
     map (\<lambda>rel. (r_subject rel, r_object rel, get_or (r_relation rel) ''related_to''))
       (filter (\<lambda>rel. r_subject rel \<in> e_text ` set entities \<and> r_object rel \<in> e_text ` set entities) rels)"

section \<open>Analyzer results and the analysis record\<close>

text \<open>
  The analyzers (entity recognition, sentiment, classification) are collaborators of the
  engine: each is a function of the text that returns its result or raises. Their results,
  and the analysis record that the engine assembles, are Python dictionaries; each is a
  record of the keys that the engine reads, a key that may be missing being an optional
  field. The record \<open>analysis\<close> stands for every dictionary that the engine returns,
  caches or scores: the completed record, the failed record, and a stored analysis read
  back for the confidence score (which alone may carry \<open>ocr_confidence\<close>).
\<close>

record ner_results =
  ner_entities :: "entity list option"

record sentiment_results =
  average_score :: "rat option"

record classification_results =
  category :: "string option"
  confidence :: "rat option"

record key_phrase =
  kp_text :: string
  kp_root :: string
  kp_pos :: string

record doc_structure =
  total_lines :: nat
  non_empty_lines :: nat
  average_line_length :: rat
  has_headers :: bool
  has_tables :: bool
  has_lists :: bool

record doc_metadata =
  md_category :: string
  extracted_fields :: "(string \<times> string list) list"

record analysis =
  res_document_id :: string
  res_analyzed_at :: nat
  res_status :: string
  res_error :: "string option"
  res_entities :: "ner_results option"
  res_sentiment :: "sentiment_results option"
  res_classification :: "classification_results option"
  res_relationships :: "relationship list option"
  res_knowledge_graph :: "graph_data option"
  res_dates :: "date_item list option"
  res_timeline :: "timeline_entry list option"
  res_key_phrases :: "key_phrase list option"
  res_structure :: "doc_structure option"
  res_extracted_metadata :: "doc_metadata option"
  res_statistics :: "text_statistics option"
  ocr_confidence :: "rat option"

record models =
  extract_entities :: "unicode \<Rightarrow> exception + ner_results"
  analyze_text_chunks :: "unicode \<Rightarrow> exception + sentiment_results"
  classify_document :: "unicode \<Rightarrow> exception + classification_results"
  extract_relationships :: "unicode \<Rightarrow> exception + relationship list"
  extract_dates :: "unicode \<Rightarrow> exception + date_item list"
  extract_key_phrases :: "unicode \<Rightarrow> exception + key_phrase list"
  get_document_structure :: "unicode \<Rightarrow> exception + doc_structure"
  extract_document_metadata :: "unicode \<Rightarrow> string \<Rightarrow> exception + doc_metadata"

section \<open>The cache and the document store\<close>

text \<open>
  \<open>RedisCache\<close>: the server's content is an insertion-ordered list of keys and values. A
  value is held as the dictionary that \<open>json.loads\<close> returns for the stored text, that is,
  \<open>json.dumps\<close> and \<open>json.loads\<close> are taken to be inverse on analysis records; the
  expiry is not modelled. \<open>rc_client_error\<close> is the exception that a call of the Redis
  client raises when the server cannot be reached; \<open>get\<close> and \<open>set\<close> catch it.

  \<open>MongoDB\<close>: three collections. \<open>db_faults\<close> says which operations raise, and with
  which exception, so that a failing persistence call is an input of the model.
  \<open>ObjectId\<close> accepts the 24-digit hexadecimal strings and raises on any other.
\<close>

record RedisCache =
  rc_is_connected :: bool
  rc_client_error :: "exception option"
  rc_store :: "(string \<times> analysis) list"

definition redis_get :: "RedisCache \<Rightarrow> string \<Rightarrow> analysis option" where
  \<comment> \<open>\<open>RedisCache.get\<close>\<close>
  "redis_get self key =
     (if \<not> rc_is_connected self then None
      else case rc_client_error self of
             Some e \<Rightarrow> None
           | None \<Rightarrow> map_of (rc_store self) key)"

definition redis_set :: "RedisCache \<Rightarrow> string \<Rightarrow> analysis \<Rightarrow> bool \<times> RedisCache" where
  \<comment> \<open>\<open>RedisCache.set\<close>\<close>
  "redis_set self key val =
     (if \<not> rc_is_connected self then (False, self)
      else case rc_client_error self of
             Some e \<Rightarrow> (False, self)
           | None \<Rightarrow> (True, self\<lparr>rc_store := AList.update key val (rc_store self)\<rparr>))"

definition cache_key :: "string \<Rightarrow> string \<Rightarrow> string" where
  "cache_key doc_id analysis_type = ''analysis:'' @ doc_id @ '':'' @ analysis_type"

definition cache_analysis :: "RedisCache \<Rightarrow> string \<Rightarrow> string \<Rightarrow> analysis \<Rightarrow> bool \<times> RedisCache" where
  "cache_analysis self doc_id analysis_type data = redis_set self (cache_key doc_id analysis_type) data"

definition get_cached_analysis :: "RedisCache \<Rightarrow> string \<Rightarrow> string \<Rightarrow> analysis option" where
  "get_cached_analysis self doc_id analysis_type = redis_get self (cache_key doc_id analysis_type)"

record document =
  text_content :: "unicode option"
  analysis_status :: "string option"
  doc_error :: "string option"
  doc_analyzed_at :: "nat option"

record doc_update =
  set_analysis_status :: "string option"
  set_error :: "string option"
  set_analyzed_at :: "nat option"

record entity_row =
  row_document_id :: string
  entity_text :: string
  entity_type :: string
  start_pos :: int
  end_pos :: int
  description :: string
  created_at :: nat

record analysis_doc =
  ad_document_id :: string
  analysis_type :: string
  ad_sentiment :: "sentiment_results option"
  ad_classification :: "classification_results option"
  ad_statistics :: "text_statistics option"
  ad_structure :: "doc_structure option"
  ad_analyzed_at :: nat

datatype db_op = GetDocument | UpdateDocument | InsertEntities | InsertAnalysis

record MongoDB =
  documents :: "(string \<times> document) list"
  entities_coll :: "entity_row list"
  analysis_coll :: "analysis_doc list"
  db_faults :: "(db_op \<times> exception) list"

definition ObjectId :: "string \<Rightarrow> exception + string" where
  "ObjectId s =
     (if length s = 24 \<and> list_all (\<lambda>c. c \<in> set ''0123456789abcdefABCDEF'') s then Inr s
      else Inl InvalidId)"

definition get_document :: "MongoDB \<Rightarrow> string \<Rightarrow> exception + document option" where
  "get_document self document_id =
     (case ObjectId document_id of
        Inl e \<Rightarrow> Inl e
      | Inr oid \<Rightarrow>
          (case map_of (db_faults self) GetDocument of
             Some e \<Rightarrow> Inl e
           | None \<Rightarrow> Inr (map_of (documents self) oid)))"

definition apply_update :: "doc_update \<Rightarrow> document \<Rightarrow> document" where
  \<comment> \<open>\<open>$set\<close>: the fields given replace the document's\<close>
  "apply_update u d =
     d\<lparr>analysis_status := (case set_analysis_status u of None \<Rightarrow> analysis_status d | Some v \<Rightarrow> Some v),
       doc_error := (case set_error u of None \<Rightarrow> doc_error d | Some v \<Rightarrow> Some v),
       doc_analyzed_at := (case set_analyzed_at u of None \<Rightarrow> doc_analyzed_at d | Some v \<Rightarrow> Some v)\<rparr>"

definition update_document :: "MongoDB \<Rightarrow> string \<Rightarrow> doc_update \<Rightarrow> exception + (bool \<times> MongoDB)" where
  "update_document self document_id update_data =
     (case ObjectId document_id of
        Inl e \<Rightarrow> Inl e
      | Inr oid \<Rightarrow>
          (case map_of (db_faults self) UpdateDocument of
             Some e \<Rightarrow> Inl e
           | None \<Rightarrow>
               (case map_of (documents self) oid of
                  None \<Rightarrow> Inr (False, self)
                | Some d \<Rightarrow>
                    Inr (apply_update update_data d \<noteq> d,
                         self\<lparr>documents := AList.update oid (apply_update update_data d) (documents self)\<rparr>))))"

definition insert_entities :: "MongoDB \<Rightarrow> entity_row list \<Rightarrow> exception + MongoDB" where
  \<comment> \<open>no call of the database for an empty list\<close>
  "insert_entities self rows =
     (if rows \<noteq> []
      then (case map_of (db_faults self) InsertEntities of
              Some e \<Rightarrow> Inl e
            | None \<Rightarrow> Inr (self\<lparr>entities_coll := entities_coll self @ rows\<rparr>))
      else Inr self)"

definition insert_analysis :: "MongoDB \<Rightarrow> analysis_doc \<Rightarrow> exception + MongoDB" where
  "insert_analysis self a =
     (case map_of (db_faults self) InsertAnalysis of
        Some e \<Rightarrow> Inl e
      | None \<Rightarrow> Inr (self\<lparr>analysis_coll := analysis_coll self @ [a]\<rparr>))"

section \<open>The analysis engine\<close>

text \<open>
  The state that the engine works on: the cache, the document store, the graph builder
  (which keeps the last graph), the clock, and \<open>invoked\<close>, the names of the analyzer
  methods called so far, in order. The clock is read, not advanced: every
  \<open>datetime.utcnow()\<close> of one call gives the same value. Logging is left out.

  A statement of the \<open>try\<close> block is an \<open>action\<close>: it returns a value or an exception,
  and the new state. \<open>and_then\<close> sequences two of them and stops at the first exception,
  as the \<open>try\<close> block does; \<open>invoke\<close> calls an analyzer and records the call.
\<close>

record world =
  redis :: RedisCache
  mongodb :: MongoDB
  kg_builder :: KnowledgeGraphBuilder
  utcnow :: nat
  invoked :: "string list"

type_synonym 'a action = "world \<Rightarrow> (exception + 'a) \<times> world"

definition ret :: "'a \<Rightarrow> 'a action" where
  "ret x w = (Inr x, w)"

definition and_then :: "'a action \<Rightarrow> ('a \<Rightarrow> 'b action) \<Rightarrow> 'b action" where
  "and_then m f w = (case m w of (Inl e, w') \<Rightarrow> (Inl e, w') | (Inr x, w') \<Rightarrow> f x w')"

definition invoke :: "string \<Rightarrow> exception + 'a \<Rightarrow> 'a action" where
  "invoke name outcome w = (outcome, w\<lparr>invoked := invoked w @ [name]\<rparr>)"

definition lift :: "exception + 'a \<Rightarrow> 'a action" where
  "lift outcome w = (outcome, w)"

definition kg_build_graph :: "entity list \<Rightarrow> relationship list option \<Rightarrow> graph_data action" where
  "kg_build_graph entities relationships w =
     (let (graph_data, builder) = build_graph (kg_builder w) entities relationships
      in (Inr graph_data, w\<lparr>kg_builder := builder\<rparr>))"

definition truthy_str :: "string option \<Rightarrow> bool" where
  \<comment> \<open>\<open>if d.get(key):\<close> for a string: present and not empty\<close>
  "truthy_str v \<longleftrightarrow> (case v of None \<Rightarrow> False | Some s \<Rightarrow> s \<noteq> [])"

definition truthy_num :: "rat option \<Rightarrow> bool" where
  \<comment> \<open>\<open>if d.get(key):\<close> for a number: present and not zero\<close>
  "truthy_num v \<longleftrightarrow> (case v of None \<Rightarrow> False | Some x \<Rightarrow> x \<noteq> 0)"

definition run_analyses :: "models \<Rightarrow> string \<Rightarrow> unicode \<Rightarrow> analysis action" where
  \<comment> \<open>steps 1 to 10 of \<open>AnalysisEngine.analyze_document\<close>, from the state \<open>w0\<close>\<close>
  "run_analyses M document_id text_in w0 =
     and_then (invoke ''extract_entities'' (extract_entities M text_in)) (\<lambda>ner.
     and_then (invoke ''analyze_text_chunks'' (analyze_text_chunks M text_in)) (\<lambda>sentiment.
     and_then (invoke ''classify_document'' (classify_document M text_in)) (\<lambda>classification.
     and_then (invoke ''extract_relationships'' (extract_relationships M text_in)) (\<lambda>relationships.
     and_then (kg_build_graph (get_or (ner_entities ner) []) (Some relationships)) (\<lambda>kg_data.
     and_then (invoke ''extract_dates'' (extract_dates M text_in)) (\<lambda>dates.
     and_then (ret (build_timeline dates (get_or (ner_entities ner) []))) (\<lambda>timeline.
     and_then (invoke ''extract_key_phrases'' (extract_key_phrases M text_in)) (\<lambda>key_phrases.
     and_then (invoke ''get_document_structure'' (get_document_structure M text_in)) (\<lambda>structure.
     and_then (if truthy_str (category classification)
           then and_then (invoke ''extract_document_metadata''
                        (extract_document_metadata M text_in (the (category classification))))
                     (\<lambda>metadata. ret (Some metadata))
           else ret None) (\<lambda>metadata.
     and_then (lift (calculate_text_statistics text_in)) (\<lambda>statistics.
     ret \<lparr>res_document_id = document_id,
           res_analyzed_at = utcnow w0,
           res_status = ''completed'',
           res_error = None,
           res_entities = Some ner,
           res_sentiment = Some sentiment,
           res_classification = Some classification,
           res_relationships = Some relationships,
           res_knowledge_graph = Some kg_data,
           res_dates = Some dates,
           res_timeline = Some timeline,
           res_key_phrases = Some key_phrases,
           res_structure = Some structure,
           res_extracted_metadata = metadata,
           res_statistics = Some statistics,
           ocr_confidence = None\<rparr>))))))))))) w0"

definition entity_rows :: "string \<Rightarrow> nat \<Rightarrow> entity list \<Rightarrow> entity_row list" where
  \<comment> \<open>\<open>entities_to_save\<close>\<close>
  "entity_rows document_id now entities =
     map (\<lambda>entity.
            \<lparr>row_document_id = document_id,
             entity_text = e_text entity,
             entity_type = e_label entity,
             start_pos = e_start entity,
             end_pos = e_end entity,
             description = get_or (e_description entity) '''',
             created_at = now\<rparr>) entities"

definition save_analysis_results :: "world \<Rightarrow> string \<Rightarrow> analysis \<Rightarrow> world" where
  \<comment> \<open>\<open>AnalysisEngine._save_analysis_results\<close>: its own \<open>except\<close> logs the exception of
      a persistence call and returns, keeping what was written before it\<close>
  "save_analysis_results w document_id results =
     (let ents = (case res_entities results of None \<Rightarrow> None | Some ner \<Rightarrow> ner_entities ner)
      in case (if ents \<noteq> None \<and> ents \<noteq> Some []
               then insert_entities (mongodb w) (entity_rows document_id (utcnow w) (the ents))
               else Inr (mongodb w)) of
           Inl e \<Rightarrow> w
         | Inr db1 \<Rightarrow>
      (case insert_analysis db1
              \<lparr>ad_document_id = document_id,
               analysis_type = ''complete'',
               ad_sentiment = res_sentiment results,
               ad_classification = res_classification results,
               ad_statistics = res_statistics results,
               ad_structure = res_structure results,
               ad_analyzed_at = utcnow w\<rparr> of
           Inl e \<Rightarrow> w\<lparr>mongodb := db1\<rparr>
         | Inr db2 \<Rightarrow>
      (case update_document db2 document_id
              \<lparr>set_analysis_status = Some ''completed'', set_error = None,
               set_analyzed_at = Some (utcnow w)\<rparr> of
           Inl e \<Rightarrow> w\<lparr>mongodb := db2\<rparr>
         | Inr (modified, db3) \<Rightarrow> w\<lparr>mongodb := db3\<rparr>)))"

definition failed_result :: "string \<Rightarrow> exception \<Rightarrow> nat \<Rightarrow> analysis" where
  \<comment> \<open>the dictionary returned by the \<open>except\<close> branch of \<open>analyze_document\<close>\<close>
  "failed_result document_id e now =
     \<lparr>res_document_id = document_id,
      res_analyzed_at = now,
      res_status = ''failed'',
      res_error = Some (str_of e),
      res_entities = None, res_sentiment = None, res_classification = None,
      res_relationships = None, res_knowledge_graph = None, res_dates = None,
      res_timeline = None, res_key_phrases = None, res_structure = None,
      res_extracted_metadata = None, res_statistics = None, ocr_confidence = None\<rparr>"

definition analyze_document :: "models \<Rightarrow> world \<Rightarrow> string \<Rightarrow> unicode \<Rightarrow> bool \<Rightarrow> analysis \<times> world" where
  \<comment> \<open>\<open>AnalysisEngine.analyze_document\<close>. A cached record is a dictionary with keys, hence
      truthy. The function returns in every case: it catches every exception\<close>
  "analyze_document M w document_id text_in force =
     (case (if \<not> force then get_cached_analysis (redis w) document_id ''complete'' else None) of
        Some cached \<Rightarrow> (cached, w)
      | None \<Rightarrow>
          (case run_analyses M document_id text_in w of
             (Inr results, w1) \<Rightarrow>
               (let w2 = save_analysis_results w1 document_id results;
                    w3 = w2\<lparr>redis := snd (cache_analysis (redis w2) document_id ''complete'' results)\<rparr>
                in (results, w3))
           | (Inl e, w1) \<Rightarrow> (failed_result document_id e (utcnow w1), w1)))"

definition calculate_confidence :: "analysis \<Rightarrow> rat" where
  \<comment> \<open>\<open>AnalysisEngine._calculate_confidence\<close>\<close>
  "calculate_confidence a =
     (let c = (case res_classification a of None \<Rightarrow> None | Some x \<Rightarrow> confidence x);
          s = (case res_sentiment a of None \<Rightarrow> None | Some x \<Rightarrow> average_score x);
          scores = (if truthy_num c then [the c] else [])
                 @ (if truthy_num s then [the s] else [])
                 @ (if truthy_num (ocr_confidence a) then [the (ocr_confidence a)] else [])
      in if scores \<noteq> [] then sum_list scores / of_nat (length scores) else 1 / 2)"

section \<open>The analysis route\<close>

text \<open>
  The route \<open>POST /analyze\<close> of \<open>routes/analysis.py\<close>, the only caller of the engine.
  It answers with a response or an \<open>HTTPException\<close>, and returns the background tasks
  that it has scheduled, which run after the response.
\<close>

record AnalysisRequest =
  req_document_id :: string
  req_force :: "bool option"

datatype HTTPException = HTTPException nat string

record analyze_response =
  success :: bool
  message :: string
  resp_document_id :: string
  resp_status :: string

record background_task =
  task_document_id :: string
  task_text :: unicode
  task_force :: "bool option"

definition route_analyze_document ::
  "world \<Rightarrow> AnalysisRequest \<Rightarrow> (HTTPException + analyze_response) \<times> background_task list \<times> world" where
  \<comment> \<open>\<open>analyze_document\<close> of \<open>routes/analysis.py\<close>\<close>
  "route_analyze_document w request =
     (case get_document (mongodb w) (req_document_id request) of
        Inl e \<Rightarrow> (Inl (HTTPException 500 (''Analysis failed: '' @ str_of e)), [], w)
      | Inr None \<Rightarrow> (Inl (HTTPException 404 ''Document not found''), [], w)
      | Inr (Some document) \<Rightarrow>
          (let text_in = get_or (text_content document) []
           in if text_in = [] then (Inl (HTTPException 400 ''Document has no text content''), [], w)
              else (case update_document (mongodb w) (req_document_id request)
                           \<lparr>set_analysis_status = Some ''processing'', set_error = None,
                            set_analyzed_at = None\<rparr> of
                      Inl e \<Rightarrow> (Inl (HTTPException 500 (''Analysis failed: '' @ str_of e)), [], w)
                    | Inr (modified, db) \<Rightarrow>
                        (Inr \<lparr>success = True, message = ''Analysis started'',
                              resp_document_id = req_document_id request,
                              resp_status = ''processing''\<rparr>,
                         [\<lparr>task_document_id = req_document_id request, task_text = text_in,
                           task_force = req_force request\<rparr>],
                         w\<lparr>mongodb := db\<rparr>))))"

definition run_analysis_task :: "models \<Rightarrow> world \<Rightarrow> background_task \<Rightarrow> world" where
  \<comment> \<open>the \<open>except\<close> branch of the task, which would set the document's status to
      \<open>failed\<close>, is never taken: the engine returns in every case\<close>
  "run_analysis_task M w task =
     snd (analyze_document M w (task_document_id task) (task_text task) (task_force task = Some True))"

subsection \<open>Auxiliary definitions for the engine properties\<close>

text \<open>
  \<open>analyzer_exceptions\<close> lists what the analyzer invocations of a run raise, so that
  "some analyzer raises" is its being non-empty; \<open>present_scores_spec\<close> and \<open>mean_spec\<close> are
  the specification's confidence score.
\<close>

definition raised :: "exception + 'a \<Rightarrow> exception list" where
  "raised outcome = (case outcome of Inl e \<Rightarrow> [e] | Inr x \<Rightarrow> [])"

definition analyzer_exceptions :: "models \<Rightarrow> unicode \<Rightarrow> exception list" where
  \<comment> \<open>the exceptions that the analyzer invocations of a run on this text raise, in the order
      of the invocations; the metadata extractor is invoked only for a truthy category\<close>
  "analyzer_exceptions M t =
     raised (extract_entities M t) @ raised (analyze_text_chunks M t) @
     raised (classify_document M t) @ raised (extract_relationships M t) @
     raised (extract_dates M t) @ raised (extract_key_phrases M t) @
     raised (get_document_structure M t) @
     (case classify_document M t of
        Inl e \<Rightarrow> []
      | Inr c \<Rightarrow> if truthy_str (category c)
                then raised (extract_document_metadata M t (the (category c))) else [])"

definition present_scores_spec :: "analysis \<Rightarrow> rat list" where
  "present_scores_spec a =
     (case res_classification a of None \<Rightarrow> [] | Some x \<Rightarrow> (case confidence x of None \<Rightarrow> [] | Some v \<Rightarrow> [v]))
   @ (case res_sentiment a of None \<Rightarrow> [] | Some x \<Rightarrow> (case average_score x of None \<Rightarrow> [] | Some v \<Rightarrow> [v]))
   @ (case ocr_confidence a of None \<Rightarrow> [] | Some v \<Rightarrow> [v])"

definition mean_spec :: "rat list \<Rightarrow> rat" where
  "mean_spec xs = (if xs = [] then 1 / 2 else sum_list xs / of_nat (length xs))"

section \<open>Concrete inputs\<close>

text \<open>The inputs at which the theorems below are instantiated and evaluated.\<close>

definition scenario_entities :: "entity list" where
  "scenario_entities =
     [\<lparr>e_text = ''Acme Corp'', e_label = ''ORG'', e_start = 0, e_end = 9, e_description = None\<rparr>,
      \<lparr>e_text = ''John Smith'', e_label = ''PERSON'', e_start = 20, e_end = 30, e_description = None\<rparr>]"

definition scenario_relationships :: "relationship list" where
  "scenario_relationships =
     [\<lparr>r_subject = ''John Smith'', r_relation = Some ''founded'', r_object = ''Acme Corp''\<rparr>,
      \<lparr>r_subject = ''John Smith'', r_relation = None, r_object = ''Paris''\<rparr>]"

definition scenario_dates :: "date_item list" where
  "scenario_dates = [\<lparr>d_text = ''2024-01-01'', d_start = 500, d_end = 510\<rparr>]"

definition timeline_entities :: "entity list" where
  "timeline_entities =
     [\<lparr>e_text = ''near'', e_label = ''ORG'', e_start = 550, e_end = 554, e_description = None\<rparr>,
      \<lparr>e_text = ''edge'', e_label = ''ORG'', e_start = 600, e_end = 604, e_description = None\<rparr>,
      \<lparr>e_text = ''far'', e_label = ''ORG'', e_start = 700, e_end = 703, e_description = None\<rparr>]"

definition overlap_entities :: "entity list" where
  \<comment> \<open>two texts that are each mentioned under two labels\<close>
  "overlap_entities =
     [\<lparr>e_text = ''X'', e_label = ''PERSON'', e_start = 0, e_end = 1, e_description = None\<rparr>,
      \<lparr>e_text = ''X'', e_label = ''ORG'', e_start = 5, e_end = 6, e_description = None\<rparr>,
      \<lparr>e_text = ''Y'', e_label = ''ORG'', e_start = 10, e_end = 11, e_description = None\<rparr>,
      \<lparr>e_text = ''Y'', e_label = ''GPE'', e_start = 20, e_end = 21, e_description = None\<rparr>]"

definition sample_doc_id :: string where
  "sample_doc_id = ''65f0a1b2c3d4e5f601234567''"

definition sample_text :: unicode where
  "sample_text = [72, 105, 46]"

definition ok_models :: models where
  "ok_models =
     \<lparr>extract_entities = (\<lambda>t. Inr \<lparr>ner_entities = Some scenario_entities\<rparr>),
      analyze_text_chunks = (\<lambda>t. Inr \<lparr>average_score = Some (4 / 5)\<rparr>),
      classify_document = (\<lambda>t. Inr \<lparr>category = Some ''invoice'', confidence = Some 0\<rparr>),
      extract_relationships = (\<lambda>t. Inr []),
      extract_dates = (\<lambda>t. Inr []),
      extract_key_phrases = (\<lambda>t. Inr []),
      get_document_structure = (\<lambda>t. Inr \<lparr>total_lines = 1, non_empty_lines = 1,
         average_line_length = 3, has_headers = False, has_tables = False, has_lists = False\<rparr>),
      extract_document_metadata = (\<lambda>t c. Inr \<lparr>md_category = c, extracted_fields = []\<rparr>)\<rparr>"

definition failing_models :: models where
  "failing_models = ok_models\<lparr>analyze_text_chunks := (\<lambda>t. Inl (Raised ''model not loaded''))\<rparr>"

definition sample_world :: world where
  "sample_world =
     \<lparr>redis = \<lparr>rc_is_connected = True, rc_client_error = None, rc_store = []\<rparr>,
      mongodb = \<lparr>documents = [(sample_doc_id,
                     \<lparr>text_content = Some sample_text, analysis_status = Some ''processing'',
                      doc_error = None, doc_analyzed_at = None\<rparr>)],
                 entities_coll = [], analysis_coll = [], db_faults = []\<rparr>,
      kg_builder = \<lparr>graph = None\<rparr>,
      utcnow = 1000,
      invoked = []\<rparr>"

definition faulty_world :: world where
  "faulty_world =
     sample_world\<lparr>mongodb := (mongodb sample_world)\<lparr>db_faults := [(UpdateDocument, Raised ''connection lost'')]\<rparr>\<rparr>"

definition empty_doc_world :: world where
  "empty_doc_world =
     sample_world\<lparr>mongodb := (mongodb sample_world)\<lparr>documents := [(sample_doc_id,
                     \<lparr>text_content = Some [], analysis_status = Some ''pending'',
                      doc_error = None, doc_analyzed_at = None\<rparr>)]\<rparr>\<rparr>"

definition zero_confidence_analysis :: analysis where
  "zero_confidence_analysis =
     (failed_result sample_doc_id (Raised '''') 0)
       \<lparr>res_status := ''completed'', res_error := None,
        res_classification := Some \<lparr>category = Some ''invoice'', confidence = Some 0\<rparr>,
        res_sentiment := Some \<lparr>average_score = Some (4 / 5)\<rparr>\<rparr>"

section \<open>Properties of the timeline builder\<close>

lemma take_filter_index:
  "take n (filter P xs) =
   map ((!) xs) (filter (\<lambda>i. P (xs ! i) \<and> length (filter P (take i xs)) < n) [0..<length xs])"
proof (induction xs rule: rev_induct)
  case Nil
  show ?case by simp
next
  case (snoc x xs)
  let ?Q = "\<lambda>ys i. P (ys ! i) \<and> length (filter P (take i ys)) < n"
  have a: "filter (?Q (xs @ [x])) [0..<length xs] = filter (?Q xs) [0..<length xs]"
    by (rule filter_cong) (auto simp: nth_append)
  have b: "map ((!) (xs @ [x])) (filter (?Q xs) [0..<length xs])
         = map ((!) xs) (filter (?Q xs) [0..<length xs])"
    by (rule map_cong) (auto simp: nth_append)
  have c: "filter (?Q (xs @ [x])) [0..<length (xs @ [x])]
         = filter (?Q xs) [0..<length xs] @ (if P x \<and> length (filter P xs) < n then [length xs] else [])"
    using a by simp
  have "map ((!) (xs @ [x])) (filter (?Q (xs @ [x])) [0..<length (xs @ [x])])
      = map ((!) xs) (filter (?Q xs) [0..<length xs]) @ (if P x \<and> length (filter P xs) < n then [x] else [])"
    unfolding c using b by simp
  also have "\<dots> = take n (filter P xs) @ (if P x \<and> length (filter P xs) < n then [x] else [])"
    using snoc.IH by simp
  also have "\<dots> = take n (filter P (xs @ [x]))"
    by simp
  finally show ?case by simp
qed

lemma related_entities_attached:
  "map e_text (take 5 (nearby_entities d es)) =
   map (\<lambda>i. e_text (es ! i)) (filter (attached_spec d es) [0..<length es])"
proof -
  have "filter (attached_spec d es) [0..<length es] =
        filter (\<lambda>i. \<bar>e_start (es ! i) - d_start d\<bar> < 100 \<and>
           length (filter (\<lambda>e. \<bar>e_start e - d_start d\<bar> < 100) (take i es)) < 5) [0..<length es]"
    by (rule filter_cong) (auto simp: attached_spec_def)
  then show ?thesis
    unfolding nearby_entities_def by (simp add: take_filter_index [of 5] comp_def)
qed

text \<open>
  C5 (timeline proximity). The timeline is the stable sort by position of one entry per
  date item, and the entry of a date item \<open>d\<close> lists the texts of exactly the entities
  that are attached in the specification's sense: at a distance \<open>|e.start - d.start|\<close>
  strictly below 100 and among the first 5 such entities in list order. An entity at
  distance exactly 100 is never attached.
\<close>

theorem timeline_proximity:
  "build_timeline ds es =
     sort_key position
       (map (\<lambda>d. \<lparr>date = d_text d, position = d_start d,
                  related_entities =
                    map (\<lambda>i. e_text (es ! i)) (filter (attached_spec d es) [0..<length es]),
                  context_tag = ''event''\<rparr>) ds)
   \<and> (\<forall>d i. \<bar>e_start (es ! i) - d_start d\<bar> = 100 \<longrightarrow> \<not> attached_spec d es i)"
proof
  show "build_timeline ds es =
     sort_key position
       (map (\<lambda>d. \<lparr>date = d_text d, position = d_start d,
                  related_entities =
                    map (\<lambda>i. e_text (es ! i)) (filter (attached_spec d es) [0..<length es]),
                  context_tag = ''event''\<rparr>) ds)"
    by (simp add: build_timeline_def related_entities_attached)
  show "\<forall>d i. \<bar>e_start (es ! i) - d_start d\<bar> = 100 \<longrightarrow> \<not> attached_spec d es i"
    by (simp add: attached_spec_def)
qed

theorem timeline_proximity_witness:
  "\<bar>e_start (timeline_entities ! 1) - d_start (hd scenario_dates)\<bar> = 100
   \<and> \<not> attached_spec (hd scenario_dates) timeline_entities 1
   \<and> build_timeline scenario_dates timeline_entities =
       [\<lparr>date = ''2024-01-01'', position = 500, related_entities = [''near''], context_tag = ''event''\<rparr>]"
proof -
  have h: "\<bar>e_start (timeline_entities ! 1) - d_start (hd scenario_dates)\<bar> = 100"
    by (simp add: timeline_entities_def scenario_dates_def)
  have t: "build_timeline scenario_dates timeline_entities =
       [\<lparr>date = ''2024-01-01'', position = 500, related_entities = [''near''], context_tag = ''event''\<rparr>]"
    by code_simp
  from timeline_proximity [of scenario_dates timeline_entities] h t show ?thesis
    by blast
qed

text \<open>
  C6 (timeline ordering). The list returned by the timeline builder is sorted
  non-decreasing in the position field, for every input.
\<close>

theorem timeline_sorted:
  "sorted (map position (build_timeline ds es))"
  by (simp add: build_timeline_def)

section \<open>Properties of the text statistics\<close>

lemma split_sep_nonempty: "split_sep s cur t \<noteq> []"
  by (induction t arbitrary: cur) auto

lemma calculate_text_statistics_returns: "\<exists>s. calculate_text_statistics t = Inr s"
  using split_sep_nonempty [of full_stop "[]" t]
  by (auto simp: calculate_text_statistics_def Let_def truediv_def)

text \<open>
  C10 (text-statistics totality). For every text the statistics are returned, no division
  raising: splitting at the full stop always yields at least one piece, so the sentence
  count is at least 1 (exactly 1 for the empty text) and the average sentence length
  never divides by zero; when the text has no word, the word count, the average word
  length and the vocabulary richness are 0.
\<close>

theorem text_statistics_total:
  "\<exists>s. calculate_text_statistics t = Inr s
       \<and> total_sentences s = length (split_sep full_stop [] t)
       \<and> 1 \<le> total_sentences s
       \<and> (t = [] \<longrightarrow> total_sentences s = 1)
       \<and> total_words s = length (split_ws [] t)
       \<and> (split_ws [] t = [] \<longrightarrow>
            total_words s = 0 \<and> avg_word_length s = 0 \<and> vocabulary_richness s = 0)"
proof -
  have "split_sep full_stop [] t \<noteq> []" by (rule split_sep_nonempty)
  moreover from this have "1 \<le> length (split_sep full_stop [] t)"
    by (cases "split_sep full_stop [] t") simp_all
  ultimately show ?thesis
    by (auto simp: calculate_text_statistics_def Let_def truediv_def)
qed

theorem text_statistics_total_witness:
  "calculate_text_statistics [] =
     Inr \<lparr>total_characters = 0, total_words = 0, total_sentences = 1, avg_word_length = 0,
          avg_sentence_length = 0, unique_words = 0, vocabulary_richness = 0\<rparr>
   \<and> split_ws [] [] = []"
proof -
  have w: "split_ws [] [] = []" by simp
  from text_statistics_total [of "[]"] w show ?thesis
    by (auto simp: calculate_text_statistics_def Let_def truediv_def)
qed

section \<open>Properties of the knowledge graph builder\<close>

lemma has_node_adj [simp]: "has_node (G\<lparr>g_adj := x\<rparr>) n = has_node G n"
  by (simp add: has_node_def)

lemma add_edge_present:
  "has_node G u \<Longrightarrow> has_node G v \<Longrightarrow>
   add_edge u v r G = G\<lparr>g_adj := AList.update (u, v) (Some r) (g_adj G)\<rparr>"
  by (simp add: add_edge_def touch_node_def)

lemma fold_guarded_add:
  "\<forall>t\<in>set ts. has_node G (fst t) \<and> has_node G (fst (snd t)) \<Longrightarrow>
   fold guarded_add ts G = G\<lparr>g_adj := apply_edges ts (g_adj G)\<rparr>"
proof (induction ts arbitrary: G)
  case Nil
  show ?case by (simp add: apply_edges_def)
next
  case (Cons t ts)
  obtain u v r where t: "t = (u, v, r)" by (cases t) auto
  from Cons.prems have uv: "has_node G u" "has_node G v" by (simp_all add: t)
  let ?G = "G\<lparr>g_adj := AList.update (u, v) (Some r) (g_adj G)\<rparr>"
  have step: "guarded_add (u, v, r) G = ?G"
    using uv by (simp add: guarded_add_def add_edge_present)
  have "\<forall>t\<in>set ts. has_node ?G (fst t) \<and> has_node ?G (fst (snd t))"
    using Cons.prems by simp
  from Cons.IH [OF this] show ?case
    by (simp add: step apply_edges_def t)
qed

lemma fold_guarded_filter:
  "fold guarded_add ts G =
   G\<lparr>g_adj := apply_edges (filter (\<lambda>t. has_node G (fst t) \<and> has_node G (fst (snd t))) ts) (g_adj G)\<rparr>"
proof (induction ts arbitrary: G)
  case Nil
  show ?case by (simp add: apply_edges_def)
next
  case (Cons t ts)
  obtain u v r where t: "t = (u, v, r)" by (cases t) auto
  show ?case
  proof (cases "has_node G u \<and> has_node G v")
    case True
    let ?G = "G\<lparr>g_adj := AList.update (u, v) (Some r) (g_adj G)\<rparr>"
    have step: "guarded_add (u, v, r) G = ?G"
      using True by (simp add: guarded_add_def add_edge_present)
    show ?thesis
      using True by (simp add: step Cons.IH [of ?G] apply_edges_def t)
  next
    case False
    then have step: "guarded_add (u, v, r) G = G"
      by (auto simp add: guarded_add_def)
    show ?thesis
      using False by (auto simp add: step Cons.IH [of G] t)
  qed
qed

lemma fold_concat_list: "fold f (concat xss) = fold (fold f) xss"
  by (induction xss) simp_all

lemma create_implicit_connections_fold:
  "create_implicit_connections G entities = fold guarded_add (implicit_edges_spec entities) G"
  by (simp add: create_implicit_connections_def implicit_edges_spec_def person_org_spec_def
      org_location_spec_def Let_def fold_concat_list fold_map comp_def guarded_add_def)

lemma add_relationship_edges_fold:
  "add_relationship_edges (Some rels) G =
   fold guarded_add
     (map (\<lambda>rel. (r_subject rel, r_object rel, get_or (r_relation rel) ''related_to'')) rels) G"
  by (simp add: add_relationship_edges_def fold_map comp_def guarded_add_def)

lemma apply_edges_keys:
  "fst ` set (apply_edges ts al) = fst ` set al \<union> (\<lambda>t. (fst t, fst (snd t))) ` set ts"
proof (induction ts arbitrary: al)
  case Nil
  show ?case by (simp add: apply_edges_def)
next
  case (Cons t ts)
  obtain u v r where t: "t = (u, v, r)" by (cases t) auto
  have "apply_edges (t # ts) al = apply_edges ts (AList.update (u, v) (Some r) al)"
    by (simp add: apply_edges_def t)
  then show ?case
    using Cons.IH [of "AList.update (u, v) (Some r) al"] by (auto simp: dom_update t)
qed

lemma apply_edges_distinct:
  "distinct (map fst al) \<Longrightarrow> distinct (map fst (apply_edges ts al))"
proof (induction ts arbitrary: al)
  case Nil
  then show ?case by (simp add: apply_edges_def)
next
  case (Cons t ts)
  obtain u v r where t: "t = (u, v, r)" by (cases t) auto
  have "apply_edges (t # ts) al = apply_edges ts (AList.update (u, v) (Some r) al)"
    by (simp add: apply_edges_def t)
  then show ?case
    using Cons.IH [of "AList.update (u, v) (Some r) al"] Cons.prems by (simp add: distinct_update)
qed

lemma apply_edges_const:
  "\<forall>t\<in>set ts. snd (snd t) = c \<Longrightarrow>
   map_of (apply_edges ts al) k =
     (if k \<in> (\<lambda>t. (fst t, fst (snd t))) ` set ts then Some (Some c) else map_of al k)"
proof (induction ts arbitrary: al)
  case Nil
  show ?case by (simp add: apply_edges_def)
next
  case (Cons t ts)
  obtain u v where t: "t = (u, v, c)" using Cons.prems by (cases t) auto
  have e: "apply_edges (t # ts) al = apply_edges ts (AList.update (u, v) (Some c) al)"
    by (simp add: apply_edges_def t)
  have "\<forall>t\<in>set ts. snd (snd t) = c" using Cons.prems by simp
  from Cons.IH [OF this, of "AList.update (u, v) (Some c) al"] show ?case
    unfolding e by (auto simp: update_conv' t)
qed

lemma apply_edges_append:
  "apply_edges (ts @ us) al = apply_edges us (apply_edges ts al)"
  by (simp add: apply_edges_def)

lemma build_graph_eq:
  "build_graph self E R =
     ((graph_to_dict (final_graph E R))\<lparr>statistics := Some
       \<lparr>total_nodes = number_of_nodes (final_graph E R),
        total_edges = number_of_edges (final_graph E R),
        entity_types = map (\<lambda>(k, v). (k, length v)) (snd (add_entity_nodes E (DiGraph, []))),
        s_density = density (final_graph E R),
        is_connected = (if number_of_nodes (final_graph E R) > 0
                        then is_weakly_connected (final_graph E R) else False)\<rparr>\<rparr>,
      self\<lparr>graph := Some (final_graph E R)\<rparr>)"
  by (auto simp add: build_graph_def final_graph_def Let_def split: prod.splits)

lemma build_graph_final:
  "nodes (fst (build_graph self E R)) = nodes (graph_to_dict (final_graph E R))"
  "edges (fst (build_graph self E R)) = edges (graph_to_dict (final_graph E R))"
  by (simp_all add: build_graph_eq)

lemma add_entity_nodes_Cons:
  "add_entity_nodes (e # es) (G, et) =
   add_entity_nodes es (add_node (e_text e) (e_label e) (e_text e) G,
                        map_default (e_label e) [e_text e] (\<lambda>l. l @ [e_text e]) et)"
  by (simp add: add_entity_nodes_def)

lemma add_entity_nodes_graph:
  "fst ` set (g_node (fst (add_entity_nodes es (G, et)))) = fst ` set (g_node G) \<union> e_text ` set es
   \<and> g_adj (fst (add_entity_nodes es (G, et))) = g_adj G
   \<and> (distinct (map fst (g_node G)) \<longrightarrow> distinct (map fst (g_node (fst (add_entity_nodes es (G, et))))))"
proof (induction es arbitrary: G et)
  case Nil
  show ?case by (simp add: add_entity_nodes_def)
next
  case (Cons e es)
  show ?case
    unfolding add_entity_nodes_Cons
    using Cons.IH [of "add_node (e_text e) (e_label e) (e_text e) G"
                      "map_default (e_label e) [e_text e] (\<lambda>l. l @ [e_text e]) et"]
    by (auto simp: add_node_def dom_update distinct_update)
qed

lemma entity_graph:
  "fst ` set (g_node (fst (add_entity_nodes es (DiGraph, [])))) = e_text ` set es"
  "g_adj (fst (add_entity_nodes es (DiGraph, []))) = []"
  "distinct (map fst (g_node (fst (add_entity_nodes es (DiGraph, [])))))"
  using add_entity_nodes_graph [of es DiGraph "[]"] by (simp_all add: DiGraph_def)

lemma has_node_entity_graph:
  "has_node (fst (add_entity_nodes es (DiGraph, []))) n \<longleftrightarrow> n \<in> e_text ` set es"
  using entity_graph(1) [of es] by (simp add: has_node_def)

lemma implicit_edges_spec_texts:
  "t \<in> set (implicit_edges_spec es) \<Longrightarrow> fst t \<in> e_text ` set es \<and> fst (snd t) \<in> e_text ` set es"
  by (auto simp: implicit_edges_spec_def person_org_spec_def org_location_spec_def dest!: in_set_takeD)

lemma explicit_edges_spec_texts:
  "t \<in> set (explicit_edges_spec es rs) \<Longrightarrow> fst t \<in> e_text ` set es \<and> fst (snd t) \<in> e_text ` set es"
  by (auto simp: explicit_edges_spec_def)

lemma apply_edges_empty_iff: "apply_edges ts al = [] \<longleftrightarrow> ts = [] \<and> al = []"
proof -
  have "fst ` set (apply_edges ts al) = {} \<longleftrightarrow> ts = [] \<and> al = []"
    unfolding apply_edges_keys by auto
  then show ?thesis by auto
qed

lemma explicit_pass:
  "add_relationship_edges (Some rs) (fst (add_entity_nodes es (DiGraph, []))) =
   (fst (add_entity_nodes es (DiGraph, [])))\<lparr>g_adj := apply_edges (explicit_edges_spec es rs) []\<rparr>"
proof -
  let ?G = "fst (add_entity_nodes es (DiGraph, []))"
  let ?f = "\<lambda>rel. (r_subject rel, r_object rel, get_or (r_relation rel) ''related_to'')"
  have "filter (\<lambda>t. has_node ?G (fst t) \<and> has_node ?G (fst (snd t))) (map ?f rs) =
        explicit_edges_spec es rs"
    by (simp add: explicit_edges_spec_def filter_map comp_def has_node_entity_graph)
  then show ?thesis
    by (simp add: add_relationship_edges_fold fold_guarded_filter entity_graph(2))
qed

lemma final_graph_eq:
  "final_graph es R =
     (fst (add_entity_nodes es (DiGraph, [])))\<lparr>g_adj :=
        (if R = None \<or> (\<exists>rs. R = Some rs \<and> explicit_edges_spec es rs = [])
         then apply_edges (implicit_edges_spec es) []
         else apply_edges (explicit_edges_spec es (the R)) [])\<rparr>"
proof -
  let ?G = "fst (add_entity_nodes es (DiGraph, []))"
  have imp: "create_implicit_connections ?G es = ?G\<lparr>g_adj := apply_edges (implicit_edges_spec es) []\<rparr>"
    unfolding create_implicit_connections_fold
    by (subst fold_guarded_add)
       (auto simp: has_node_entity_graph entity_graph(2) dest: implicit_edges_spec_texts)
  have none: "add_relationship_edges None ?G = ?G"
    by (simp add: add_relationship_edges_def)
  have triv: "?G\<lparr>g_adj := []\<rparr> = ?G"
    using entity_graph(2) [of es] by simp
  show ?thesis
  proof (cases R)
    case None
    then show ?thesis by (simp add: final_graph_def none imp)
  next
    case (Some rs)
    show ?thesis
    proof (cases "explicit_edges_spec es rs = []")
      case True
      have "add_relationship_edges (Some rs) ?G = ?G"
        by (simp add: explicit_pass True apply_edges_def triv)
      then show ?thesis
        using Some True
        by (simp add: final_graph_def number_of_edges_def entity_graph(2) imp)
    next
      case False
      then have "rs \<noteq> []" by (auto simp: explicit_edges_spec_def)
      then show ?thesis
        using Some False
        by (simp add: final_graph_def explicit_pass number_of_edges_def apply_edges_empty_iff Let_def)
    qed
  qed
qed

lemma edges_of_set:
  "set (edges_of G) =
   {(u, v, dd). ((u, v), dd) \<in> set (g_adj G) \<and> u \<in> fst ` set (g_node G)}"
  by (force simp: edges_of_def split_def)

lemma length_filter_split:
  "n \<notin> set ns \<Longrightarrow>
   length (filter (\<lambda>x. k x = n) xs) + length (filter (\<lambda>x. k x \<in> set ns) xs) =
   length (filter (\<lambda>x. k x = n \<or> k x \<in> set ns) xs)"
  by (induction xs) auto

lemma length_concat_by_key:
  "distinct ns \<Longrightarrow>
   length (concat (map (\<lambda>n. map h (filter (\<lambda>x. k x = n) xs)) ns)) =
   length (filter (\<lambda>x. k x \<in> set ns) xs)"
proof (induction ns)
  case Nil
  show ?case by simp
next
  case (Cons n ns)
  then show ?case
    using length_filter_split [of n ns k xs] by simp
qed

lemma edges_of_length:
  assumes "distinct (map fst (g_node G))"
    and "\<forall>x\<in>set (g_adj G). fst (fst x) \<in> fst ` set (g_node G)"
  shows "length (edges_of G) = length (g_adj G)"
proof -
  have "edges_of G =
        concat (map (\<lambda>n. map (\<lambda>x. (fst (fst x), snd (fst x), snd x))
                             (filter (\<lambda>x. fst (fst x) = n) (g_adj G))) (map fst (g_node G)))"
    by (simp add: edges_of_def split_def)
  then have "length (edges_of G) =
             length (filter (\<lambda>x. fst (fst x) \<in> set (map fst (g_node G))) (g_adj G))"
    using length_concat_by_key [OF assms(1), of "\<lambda>x. (fst (fst x), snd (fst x), snd x)"
        "\<lambda>x. fst (fst x)" "g_adj G"]
    by simp
  also have "\<dots> = length (g_adj G)"
    using assms(2) by simp
  finally show ?thesis .
qed

lemma final_graph_nodes:
  "fst ` set (g_node (final_graph es R)) = e_text ` set es"
  "distinct (map fst (g_node (final_graph es R)))"
  by (simp_all add: final_graph_eq entity_graph)

lemma final_graph_adj_texts:
  "x \<in> set (g_adj (final_graph es R)) \<Longrightarrow>
   fst (fst x) \<in> e_text ` set es \<and> snd (fst x) \<in> e_text ` set es"
proof -
  assume x: "x \<in> set (g_adj (final_graph es R))"
  then have "fst x \<in> fst ` set (g_adj (final_graph es R))" by (rule imageI)
  then have "fst x \<in> (\<lambda>t. (fst t, fst (snd t))) ` set (implicit_edges_spec es) \<or>
             fst x \<in> (\<lambda>t. (fst t, fst (snd t))) ` set (explicit_edges_spec es (the R))"
    by (simp add: final_graph_eq apply_edges_keys split: if_splits)
  then show ?thesis
    using implicit_edges_spec_texts [of _ es] explicit_edges_spec_texts [of _ es "the R"]
    by auto
qed

lemma final_graph_edges_length:
  "length (edges_of (final_graph es R)) = length (g_adj (final_graph es R))"
  by (rule edges_of_length)
     (auto simp: final_graph_nodes dest: final_graph_adj_texts)

lemma edges_dict_set:
  "set (edges (graph_to_dict G)) =
   (\<lambda>(u, v, dd). \<lparr>source = u, target = v, relation = get_or dd ''related_to'', label = get_or dd ''''\<rparr>)
     ` set (edges_of G)"
  by (simp add: graph_to_dict_def)

lemma nodes_dict_ids: "map n_id (nodes (graph_to_dict G)) = map fst (g_node G)"
  by (simp add: graph_to_dict_def case_prod_beta)

text \<open>
  C2 (graph edge validity). For every entity list and every relationship list (or none),
  the nodes of the returned graph are keyed by exactly the entity texts, each once, and
  every returned edge, explicit or synthesized, has its source and its target among them.
  A relationship whose subject or object is not an entity text creates no edge: the
  returned graph is the one built from the relationship list without such relationships.
\<close>

theorem graph_edge_validity:
  "set (map n_id (nodes (fst (build_graph self E R)))) = set (map e_text E)
   \<and> distinct (map n_id (nodes (fst (build_graph self E R))))
   \<and> (\<forall>e \<in> set (edges (fst (build_graph self E R))).
         source e \<in> set (map n_id (nodes (fst (build_graph self E R))))
       \<and> target e \<in> set (map n_id (nodes (fst (build_graph self E R)))))
   \<and> (\<forall>rs. R = Some rs \<longrightarrow>
         fst (build_graph self E R) =
         fst (build_graph self E
               (Some (filter (\<lambda>r. r_subject r \<in> set (map e_text E) \<and> r_object r \<in> set (map e_text E)) rs))))"
proof -
  have ids: "set (map n_id (nodes (fst (build_graph self E R)))) = set (map e_text E)"
    using final_graph_nodes(1) [of E R] by (simp add: build_graph_final nodes_dict_ids)
  have dist: "distinct (map n_id (nodes (fst (build_graph self E R))))"
    by (simp add: build_graph_final nodes_dict_ids final_graph_nodes)
  have ends: "source e \<in> set (map e_text E) \<and> target e \<in> set (map e_text E)"
    if "e \<in> set (edges (fst (build_graph self E R)))" for e
  proof -
    from that obtain u v dd where e: "e = \<lparr>source = u, target = v, relation = get_or dd ''related_to'', label = get_or dd ''''\<rparr>"
      and m: "(u, v, dd) \<in> set (edges_of (final_graph E R))"
      by (auto simp: build_graph_final edges_dict_set)
    from m have "((u, v), dd) \<in> set (g_adj (final_graph E R))"
      by (simp add: edges_of_set)
    from final_graph_adj_texts [OF this] show ?thesis by (simp add: e)
  qed
  have drop: "fst (build_graph self E (Some rs)) =
        fst (build_graph self E
               (Some (filter (\<lambda>r. r_subject r \<in> set (map e_text E) \<and> r_object r \<in> set (map e_text E)) rs)))" for rs
  proof -
    let ?rs = "filter (\<lambda>r. r_subject r \<in> set (map e_text E) \<and> r_object r \<in> set (map e_text E)) rs"
    have "explicit_edges_spec E ?rs = explicit_edges_spec E rs"
      by (simp add: explicit_edges_spec_def conj_commute cong: conj_cong)
    then have "final_graph E (Some ?rs) = final_graph E (Some rs)"
      by (simp add: final_graph_eq)
    then show ?thesis
      by (simp add: build_graph_eq)
  qed
  show ?thesis
    using ids dist ends drop by auto
qed

theorem graph_edge_validity_witness:
  "edges (fst (build_graph \<lparr>graph = None\<rparr> scenario_entities (Some scenario_relationships))) =
     [\<lparr>source = ''John Smith'', target = ''Acme Corp'', relation = ''founded'', label = ''founded''\<rparr>]
   \<and> set (map n_id (nodes (fst (build_graph \<lparr>graph = None\<rparr> scenario_entities
            (Some scenario_relationships))))) = {''Acme Corp'', ''John Smith''}
   \<and> fst (build_graph \<lparr>graph = None\<rparr> scenario_entities (Some scenario_relationships)) =
     fst (build_graph \<lparr>graph = None\<rparr> scenario_entities (Some [hd scenario_relationships]))"
proof -
  have e: "edges (fst (build_graph \<lparr>graph = None\<rparr> scenario_entities (Some scenario_relationships))) =
     [\<lparr>source = ''John Smith'', target = ''Acme Corp'', relation = ''founded'', label = ''founded''\<rparr>]"
    by code_simp
  have t: "set (map e_text scenario_entities) = {''Acme Corp'', ''John Smith''}"
    by (simp add: scenario_entities_def)
  have f: "filter (\<lambda>r. r_subject r \<in> set (map e_text scenario_entities)
                     \<and> r_object r \<in> set (map e_text scenario_entities)) scenario_relationships
           = [hd scenario_relationships]"
    by (simp add: scenario_entities_def scenario_relationships_def)
  note v = graph_edge_validity [of "\<lparr>graph = None\<rparr>" scenario_entities "Some scenario_relationships"]
  from v have "set (map n_id (nodes (fst (build_graph \<lparr>graph = None\<rparr> scenario_entities
            (Some scenario_relationships))))) = set (map e_text scenario_entities)"
    by (rule conjunct1)
  then have n: "set (map n_id (nodes (fst (build_graph \<lparr>graph = None\<rparr> scenario_entities
            (Some scenario_relationships))))) = {''Acme Corp'', ''John Smith''}"
    using t by (rule trans)
  from v have "fst (build_graph \<lparr>graph = None\<rparr> scenario_entities (Some scenario_relationships)) =
     fst (build_graph \<lparr>graph = None\<rparr> scenario_entities
       (Some (filter (\<lambda>r. r_subject r \<in> set (map e_text scenario_entities)
                     \<and> r_object r \<in> set (map e_text scenario_entities)) scenario_relationships)))"
    by blast
  then have d: "fst (build_graph \<lparr>graph = None\<rparr> scenario_entities (Some scenario_relationships)) =
     fst (build_graph \<lparr>graph = None\<rparr> scenario_entities (Some [hd scenario_relationships]))"
    unfolding f .
  from e n d show ?thesis by (intro conjI)
qed

lemma set_update_subset: "set (AList.update k v al) \<subseteq> insert (k, v) (set al)"
  by (induction al) auto

lemma apply_edges_member:
  "((u, v), dd) \<in> set (apply_edges ts al) \<Longrightarrow>
   ((u, v), dd) \<in> set al \<or> (\<exists>r. dd = Some r \<and> (u, v, r) \<in> set ts)"
proof (induction ts arbitrary: al)
  case Nil
  then show ?case by (simp add: apply_edges_def)
next
  case (Cons t ts)
  obtain a b c where t: "t = (a, b, c)" by (cases t) auto
  have "apply_edges (t # ts) al = apply_edges ts (AList.update (a, b) (Some c) al)"
    by (simp add: apply_edges_def t)
  with Cons.prems Cons.IH [of "AList.update (a, b) (Some c) al"]
  have "((u, v), dd) \<in> set (AList.update (a, b) (Some c) al) \<or> (\<exists>r. dd = Some r \<and> (u, v, r) \<in> set ts)"
    by simp
  then show ?case
    using set_update_subset [of "(a, b)" "Some c" al] by (auto simp: t)
qed

lemma length_update_le: "length (AList.update k v al) \<le> Suc (length al)"
  by (induction al) auto

lemma apply_edges_length: "length (apply_edges ts al) \<le> length al + length ts"
proof (induction ts arbitrary: al)
  case Nil
  show ?case by (simp add: apply_edges_def)
next
  case (Cons t ts)
  obtain a b c where t: "t = (a, b, c)" by (cases t) auto
  have "apply_edges (t # ts) al = apply_edges ts (AList.update (a, b) (Some c) al)"
    by (simp add: apply_edges_def t)
  then show ?case
    using Cons.IH [of "AList.update (a, b) (Some c) al"] length_update_le [of "(a, b)" "Some c" al]
    by simp
qed

lemma length_product: "length (concat (map (\<lambda>x. map (g x) ys) xs)) = length xs * length ys"
  by (induction xs) simp_all

lemma implicit_edges_spec_length: "length (implicit_edges_spec es) \<le> 30"
proof -
  have "length (person_org_spec es) \<le> 5 * 3"
    unfolding person_org_spec_def length_product by (rule mult_le_mono) simp_all
  moreover have "length (org_location_spec es) \<le> 5 * 3"
    unfolding org_location_spec_def length_product by (rule mult_le_mono) simp_all
  ultimately show ?thesis by (simp add: implicit_edges_spec_def)
qed

lemma implicit_adj_lookup:
  "map_of (apply_edges (implicit_edges_spec es) []) k =
     (if k \<in> (\<lambda>t. (fst t, fst (snd t))) ` set (org_location_spec es) then Some (Some ''located_in'')
      else if k \<in> (\<lambda>t. (fst t, fst (snd t))) ` set (person_org_spec es) then Some (Some ''associated_with'')
      else None)"
proof -
  have po: "\<forall>t\<in>set (person_org_spec es). snd (snd t) = ''associated_with''"
    by (auto simp: person_org_spec_def)
  have ol: "\<forall>t\<in>set (org_location_spec es). snd (snd t) = ''located_in''"
    by (auto simp: org_location_spec_def)
  show ?thesis
    by (simp add: implicit_edges_spec_def apply_edges_append apply_edges_const [OF ol]
        apply_edges_const [OF po])
qed

lemma located_in_spec_iff:
  "(s, t, ''located_in'') \<in> set (implicit_edges_spec es) \<longleftrightarrow>
   (s, t) \<in> (\<lambda>t. (fst t, fst (snd t))) ` set (org_location_spec es)"
proof -
  have "(s, t, ''located_in'') \<notin> set (person_org_spec es)"
    by (auto simp: person_org_spec_def)
  moreover have "(s, t, ''located_in'') \<in> set (org_location_spec es) \<longleftrightarrow>
                 (s, t) \<in> (\<lambda>t. (fst t, fst (snd t))) ` set (org_location_spec es)"
    by (force simp: org_location_spec_def)
  ultimately show ?thesis by (simp add: implicit_edges_spec_def)
qed

lemma edges_dict_elem:
  "e \<in> set (edges (graph_to_dict (final_graph es R))) \<longleftrightarrow>
   (\<exists>dd. ((source e, target e), dd) \<in> set (g_adj (final_graph es R))
       \<and> relation e = get_or dd ''related_to'' \<and> label e = get_or dd '''')"
proof
  assume "e \<in> set (edges (graph_to_dict (final_graph es R)))"
  then obtain u v dd where e: "e = \<lparr>source = u, target = v, relation = get_or dd ''related_to'', label = get_or dd ''''\<rparr>"
      and m: "(u, v, dd) \<in> set (edges_of (final_graph es R))"
    by (auto simp: edges_dict_set)
  from m have "((u, v), dd) \<in> set (g_adj (final_graph es R))"
    by (simp add: edges_of_set)
  then show "\<exists>dd. ((source e, target e), dd) \<in> set (g_adj (final_graph es R))
       \<and> relation e = get_or dd ''related_to'' \<and> label e = get_or dd ''''"
    by (auto simp: e)
next
  assume "\<exists>dd. ((source e, target e), dd) \<in> set (g_adj (final_graph es R))
       \<and> relation e = get_or dd ''related_to'' \<and> label e = get_or dd ''''"
  then obtain dd where m: "((source e, target e), dd) \<in> set (g_adj (final_graph es R))"
    and r: "relation e = get_or dd ''related_to''" "label e = get_or dd ''''" by auto
  from final_graph_adj_texts [OF m] have "source e \<in> fst ` set (g_node (final_graph es R))"
    by (simp add: final_graph_nodes)
  with m have "(source e, target e, dd) \<in> set (edges_of (final_graph es R))"
    by (simp add: edges_of_set)
  then have "(\<lambda>(u, v, dd). \<lparr>source = u, target = v, relation = get_or dd ''related_to'', label = get_or dd ''''\<rparr>)
               (source e, target e, dd) \<in> set (edges (graph_to_dict (final_graph es R)))"
    unfolding edges_dict_set by (rule imageI)
  moreover have "\<lparr>source = source e, target = target e, relation = get_or dd ''related_to'',
                  label = get_or dd ''''\<rparr> = e"
    using r by (cases e) simp
  ultimately show "e \<in> set (edges (graph_to_dict (final_graph es R)))"
    by simp
qed

lemma edges_dict_pairs:
  "(\<lambda>e. (source e, target e)) ` set (edges (graph_to_dict (final_graph es R))) =
   fst ` set (g_adj (final_graph es R))"
proof (intro set_eqI iffI)
  fix k assume "k \<in> (\<lambda>e. (source e, target e)) ` set (edges (graph_to_dict (final_graph es R)))"
  then show "k \<in> fst ` set (g_adj (final_graph es R))"
    by (force simp: edges_dict_elem)
next
  fix k assume "k \<in> fst ` set (g_adj (final_graph es R))"
  then obtain dd where "(k, dd) \<in> set (g_adj (final_graph es R))" by auto
  then have "\<lparr>source = fst k, target = snd k, relation = get_or dd ''related_to'', label = get_or dd ''''\<rparr>
     \<in> set (edges (graph_to_dict (final_graph es R)))"
    by (subst edges_dict_elem) auto
  then show "k \<in> (\<lambda>e. (source e, target e)) ` set (edges (graph_to_dict (final_graph es R)))"
    by force
qed

lemma no_valid_explicit:
  "(\<forall>r\<in>set rs. r_subject r \<notin> set (map e_text E) \<or> r_object r \<notin> set (map e_text E)) \<longleftrightarrow>
   explicit_edges_spec E rs = []"
  by (auto simp: explicit_edges_spec_def filter_empty_conv)

text \<open>
  C3 (implicit-edge fallback), as amended. When no relationship list is given, or no
  relationship of the list has both its subject and its object among the entity texts
  (the explicit pass leaves the graph without edges, an empty list included), the returned
  edges connect exactly the pairs of \<open>implicit_edges_spec\<close>: each of the first 5 PERSON
  mentions to each of the first 3 ORG mentions, and each of the first 5 ORG mentions to
  each of the first 3 GPE mentions. There are at most 30 of them. An edge is labelled
  \<open>located_in\<close> when its pair is one of the ORG-to-GPE pairs and \<open>associated_with\<close>
  otherwise: a pair that is both a PERSON-to-ORG and an ORG-to-GPE pair keeps the later
  label. When some relationship of the list has both endpoints among the entity texts,
  every returned edge is the edge of such a relationship, with its label: no implicit edge
  is added.
\<close>

theorem implicit_edge_fallback:
  "((R = None \<or> (\<exists>rs. R = Some rs \<and>
        (\<forall>r\<in>set rs. r_subject r \<notin> set (map e_text E) \<or> r_object r \<notin> set (map e_text E))))
     \<longrightarrow>
       (\<lambda>e. (source e, target e)) ` set (edges (fst (build_graph self E R))) =
         (\<lambda>t. (fst t, fst (snd t))) ` set (implicit_edges_spec E)
     \<and> (\<forall>e\<in>set (edges (fst (build_graph self E R))).
          relation e = (if (source e, target e, ''located_in'') \<in> set (implicit_edges_spec E)
                        then ''located_in'' else ''associated_with''))
     \<and> length (edges (fst (build_graph self E R))) \<le> 30)
   \<and> (\<forall>rs. R = Some rs \<and>
          (\<exists>r\<in>set rs. r_subject r \<in> set (map e_text E) \<and> r_object r \<in> set (map e_text E))
        \<longrightarrow> (\<forall>e\<in>set (edges (fst (build_graph self E R))).
               \<exists>r\<in>set rs. source e = r_subject r \<and> target e = r_object r
                  \<and> relation e = get_or (r_relation r) ''related_to''))"
proof (intro conjI impI allI)
  assume "R = None \<or> (\<exists>rs. R = Some rs \<and>
        (\<forall>r\<in>set rs. r_subject r \<notin> set (map e_text E) \<or> r_object r \<notin> set (map e_text E)))"
  then have fb: "R = None \<or> (\<exists>rs. R = Some rs \<and> explicit_edges_spec E rs = [])"
    by (simp only: no_valid_explicit)
  then have adj: "g_adj (final_graph E R) = apply_edges (implicit_edges_spec E) []"
    by (simp add: final_graph_eq)
  show "(\<lambda>e. (source e, target e)) ` set (edges (fst (build_graph self E R))) =
         (\<lambda>t. (fst t, fst (snd t))) ` set (implicit_edges_spec E)"
    by (simp add: build_graph_final edges_dict_pairs adj apply_edges_keys)
  show "\<forall>e\<in>set (edges (fst (build_graph self E R))).
          relation e = (if (source e, target e, ''located_in'') \<in> set (implicit_edges_spec E)
                        then ''located_in'' else ''associated_with'')"
  proof
    fix e assume "e \<in> set (edges (fst (build_graph self E R)))"
    then obtain dd where m: "((source e, target e), dd) \<in> set (apply_edges (implicit_edges_spec E) [])"
      and r: "relation e = get_or dd ''related_to''"
      by (auto simp: build_graph_final edges_dict_elem adj)
    have "distinct (map fst (apply_edges (implicit_edges_spec E) []))"
      by (rule apply_edges_distinct) simp
    with m have "map_of (apply_edges (implicit_edges_spec E) []) (source e, target e) = Some dd"
      by simp
    then show "relation e = (if (source e, target e, ''located_in'') \<in> set (implicit_edges_spec E)
                        then ''located_in'' else ''associated_with'')"
      unfolding implicit_adj_lookup located_in_spec_iff
      by (auto simp: r get_or_def split: if_splits)
  qed
  have "length (edges (fst (build_graph self E R))) = length (g_adj (final_graph E R))"
    using final_graph_edges_length [of E R] by (simp add: build_graph_final graph_to_dict_def)
  also have "\<dots> \<le> length (implicit_edges_spec E)"
    using apply_edges_length [of "implicit_edges_spec E" "[]"] by (simp add: adj)
  finally show "length (edges (fst (build_graph self E R))) \<le> 30"
    using implicit_edges_spec_length [of E] by simp
next
  fix rs
  assume a: "R = Some rs \<and>
          (\<exists>r\<in>set rs. r_subject r \<in> set (map e_text E) \<and> r_object r \<in> set (map e_text E))"
  then have ne: "explicit_edges_spec E rs \<noteq> []"
    using no_valid_explicit [of rs E] by auto
  with a have adj: "g_adj (final_graph E R) = apply_edges (explicit_edges_spec E rs) []"
    by (simp add: final_graph_eq)
  show "\<forall>e\<in>set (edges (fst (build_graph self E R))).
               \<exists>r\<in>set rs. source e = r_subject r \<and> target e = r_object r
                  \<and> relation e = get_or (r_relation r) ''related_to''"
  proof
    fix e assume "e \<in> set (edges (fst (build_graph self E R)))"
    then obtain dd where m: "((source e, target e), dd) \<in> set (apply_edges (explicit_edges_spec E rs) [])"
      and r: "relation e = get_or dd ''related_to''"
      by (auto simp: build_graph_final edges_dict_elem adj)
    from apply_edges_member [OF m] obtain x where "dd = Some x"
      "(source e, target e, x) \<in> set (explicit_edges_spec E rs)" by auto
    then show "\<exists>r\<in>set rs. source e = r_subject r \<and> target e = r_object r
                  \<and> relation e = get_or (r_relation r) ''related_to''"
      by (auto simp: explicit_edges_spec_def r get_or_def)
  qed
qed

theorem implicit_edge_fallback_witness:
  "edges (fst (build_graph \<lparr>graph = None\<rparr> scenario_entities None)) =
     [\<lparr>source = ''John Smith'', target = ''Acme Corp'', relation = ''associated_with'',
       label = ''associated_with''\<rparr>]
   \<and> implicit_edges_spec scenario_entities = [(''John Smith'', ''Acme Corp'', ''associated_with'')]
   \<and> length (edges (fst (build_graph \<lparr>graph = None\<rparr> scenario_entities None))) \<le> 30
   \<and> edges (fst (build_graph \<lparr>graph = None\<rparr> scenario_entities (Some scenario_relationships))) =
     [\<lparr>source = ''John Smith'', target = ''Acme Corp'', relation = ''founded'', label = ''founded''\<rparr>]
   \<and> (\<exists>r\<in>set scenario_relationships. r_subject r \<in> set (map e_text scenario_entities)
         \<and> r_object r \<in> set (map e_text scenario_entities))"
proof -
  have a: "edges (fst (build_graph \<lparr>graph = None\<rparr> scenario_entities None)) =
     [\<lparr>source = ''John Smith'', target = ''Acme Corp'', relation = ''associated_with'',
       label = ''associated_with''\<rparr>]"
    by code_simp
  have b: "implicit_edges_spec scenario_entities = [(''John Smith'', ''Acme Corp'', ''associated_with'')]"
    by code_simp
  have c: "edges (fst (build_graph \<lparr>graph = None\<rparr> scenario_entities (Some scenario_relationships))) =
     [\<lparr>source = ''John Smith'', target = ''Acme Corp'', relation = ''founded'', label = ''founded''\<rparr>]"
    by code_simp
  have d: "\<exists>r\<in>set scenario_relationships. r_subject r \<in> set (map e_text scenario_entities)
         \<and> r_object r \<in> set (map e_text scenario_entities)"
    by (simp add: scenario_entities_def scenario_relationships_def)
  from implicit_edge_fallback [of None scenario_entities "\<lparr>graph = None\<rparr>"]
  have "length (edges (fst (build_graph \<lparr>graph = None\<rparr> scenario_entities None))) \<le> 30"
    by simp
  with a b c d show ?thesis by simp
qed

text \<open>
  The claim C3 as stated fails where a text is mentioned under two labels: \<open>X\<close> is
  among the first PERSON mentions and \<open>Y\<close> among the first ORG mentions, so the
  claim asks for an edge from \<open>X\<close> to \<open>Y\<close> labelled \<open>associated_with\<close>, but
  the pair is also an ORG-to-GPE pair and the returned edge is labelled \<open>located_in\<close>.
\<close>

theorem implicit_edge_label_counterexample: "edges (fst (build_graph \<lparr>graph = None\<rparr> overlap_entities None)) =
   [\<lparr>source = ''X'', target = ''X'', relation = ''associated_with'', label = ''associated_with''\<rparr>,
    \<lparr>source = ''X'', target = ''Y'', relation = ''located_in'', label = ''located_in''\<rparr>,
    \<lparr>source = ''Y'', target = ''Y'', relation = ''located_in'', label = ''located_in''\<rparr>]
  \<and> (''X'', ''Y'', ''associated_with'') \<in> set (implicit_edges_spec overlap_entities)"
  by code_simp

text \<open>
  C7 (density formula). The statistics of every built graph count its returned nodes and
  edges, and the density is 0 for at most one node and \<open>e / (n * (n - 1))\<close> for
  \<open>n \<ge> 2\<close> nodes and \<open>e\<close> edges.
\<close>

theorem density_formula:
  "\<exists>st. statistics (fst (build_graph self E R)) = Some st
     \<and> total_nodes st = length (nodes (fst (build_graph self E R)))
     \<and> total_edges st = length (edges (fst (build_graph self E R)))
     \<and> s_density st =
         (if total_nodes st \<le> 1 then 0
          else of_nat (total_edges st) / of_nat (total_nodes st * (total_nodes st - 1)))"
  using final_graph_edges_length [of E R]
  by (simp add: build_graph_eq graph_to_dict_def number_of_nodes_def number_of_edges_def density_def Let_def)

theorem density_formula_witness:
  "statistics (fst (build_graph \<lparr>graph = None\<rparr> scenario_entities None)) =
     Some \<lparr>total_nodes = 2, total_edges = 1, entity_types = [(''ORG'', 1), (''PERSON'', 1)],
           s_density = 1 / 2, is_connected = True\<rparr>
   \<and> length (nodes (fst (build_graph \<lparr>graph = None\<rparr> scenario_entities None))) = 2
   \<and> length (edges (fst (build_graph \<lparr>graph = None\<rparr> scenario_entities None))) = 1"
proof -
  have s: "statistics (fst (build_graph \<lparr>graph = None\<rparr> scenario_entities None)) =
     Some \<lparr>total_nodes = 2, total_edges = 1, entity_types = [(''ORG'', 1), (''PERSON'', 1)],
           s_density = 1 / 2, is_connected = True\<rparr>"
    by code_simp
  from density_formula [of "\<lparr>graph = None\<rparr>" scenario_entities None] s show ?thesis
    by auto
qed

section \<open>Properties of the analysis engine\<close>

lemma and_then_invoke:
  "and_then (invoke n out) f w =
     (case out of Inl e \<Rightarrow> (Inl e, w\<lparr>invoked := invoked w @ [n]\<rparr>)
                | Inr x \<Rightarrow> f x (w\<lparr>invoked := invoked w @ [n]\<rparr>))"
  by (simp add: and_then_def invoke_def split: sum.splits)

lemma and_then_ret: "and_then (ret x) f w = f x w"
  by (simp add: and_then_def ret_def)

lemma and_then_lift:
  "and_then (lift out) f w = (case out of Inl e \<Rightarrow> (Inl e, w) | Inr x \<Rightarrow> f x w)"
  by (simp add: and_then_def lift_def split: sum.splits)

lemma and_then_kg:
  "and_then (kg_build_graph es rs) f w =
     f (fst (build_graph (kg_builder w) es rs)) (w\<lparr>kg_builder := snd (build_graph (kg_builder w) es rs)\<rparr>)"
  by (simp add: and_then_def kg_build_graph_def split: prod.splits)

lemma and_then_assoc: "and_then (and_then m f) g = and_then m (\<lambda>x. and_then (f x) g)"
  by (auto simp: and_then_def fun_eq_iff split: prod.splits sum.splits)

lemma and_then_if:
  "and_then (if c then a else b) f w = (if c then and_then a f w else and_then b f w)"
  by simp

lemma run_fails:
  "analyzer_exceptions M t \<noteq> [] \<Longrightarrow>
   fst (run_analyses M d t w) = Inl (hd (analyzer_exceptions M t))"
  by (auto simp: run_analyses_def and_then_invoke and_then_ret and_then_lift and_then_kg
      and_then_assoc analyzer_exceptions_def raised_def ret_def split: sum.splits if_splits)

lemma run_succeeds:
  "analyzer_exceptions M t = [] \<Longrightarrow>
   \<exists>r. fst (run_analyses M d t w) = Inr r \<and> res_status r = ''completed''"
  using calculate_text_statistics_returns [of t]
  by (auto simp: run_analyses_def and_then_invoke and_then_ret and_then_lift and_then_kg
      and_then_assoc analyzer_exceptions_def raised_def ret_def split: sum.splits if_splits)

lemma run_analyses_keeps:
  "redis (snd (run_analyses M d t w)) = redis w \<and>
   mongodb (snd (run_analyses M d t w)) = mongodb w \<and>
   utcnow (snd (run_analyses M d t w)) = utcnow w"
  by (simp add: run_analyses_def and_then_invoke and_then_ret and_then_lift and_then_kg
      and_then_assoc ret_def split: sum.splits if_splits)

lemma save_keeps_redis: "redis (save_analysis_results w d r) = redis w"
  by (simp add: save_analysis_results_def Let_def split: sum.splits prod.splits)

lemma cache_hit:
  "get_cached_analysis (redis w) d ''complete'' = Some c \<Longrightarrow>
   analyze_document M w d t False = (c, w)"
  by (simp add: analyze_document_def)

lemma cache_populated:
  assumes "rc_is_connected (redis w)" "rc_client_error (redis w) = None"
    and "res_status (fst (analyze_document M w d t False)) = ''completed''"
  shows "get_cached_analysis (redis (snd (analyze_document M w d t False))) d ''complete'' =
         Some (fst (analyze_document M w d t False))"
proof (cases "get_cached_analysis (redis w) d ''complete''")
  case (Some c)
  then show ?thesis by (simp add: cache_hit)
next
  case None
  obtain out w1 where run: "run_analyses M d t w = (out, w1)" by (cases "run_analyses M d t w")
  have r1: "redis w1 = redis w" using run_analyses_keeps [of M d t w] run by simp
  show ?thesis
  proof (cases out)
    case (Inl e)
    with assms(3) None run show ?thesis
      by (simp add: analyze_document_def failed_result_def)
  next
    case (Inr results)
    with None run assms(1,2) r1 show ?thesis
      by (simp add: analyze_document_def Let_def save_keeps_redis cache_analysis_def redis_set_def
          get_cached_analysis_def redis_get_def update_conv')
  qed
qed

text \<open>
  C1 (failed run), as amended. For every run of the engine that does not return from the
  cache: if an analyzer invocation raises, the engine returns the record with status
  \<open>failed\<close> whose error is the message of the first exception raised, and the run
  persists no analysis record, no entity row and no cache entry; if no analyzer
  invocation raises, the record returned has status \<open>completed\<close>, whatever the
  persistence calls do.
\<close>

theorem analyzer_failure:
  "force \<or> get_cached_analysis (redis w) d ''complete'' = None \<longrightarrow>
     (analyzer_exceptions M t \<noteq> [] \<longrightarrow>
        fst (analyze_document M w d t force) =
          failed_result d (hd (analyzer_exceptions M t)) (utcnow w)
      \<and> res_status (fst (analyze_document M w d t force)) = ''failed''
      \<and> res_error (fst (analyze_document M w d t force)) =
          Some (str_of (hd (analyzer_exceptions M t)))
      \<and> analysis_coll (mongodb (snd (analyze_document M w d t force))) = analysis_coll (mongodb w)
      \<and> entities_coll (mongodb (snd (analyze_document M w d t force))) = entities_coll (mongodb w)
      \<and> redis (snd (analyze_document M w d t force)) = redis w)
   \<and> (analyzer_exceptions M t = [] \<longrightarrow>
        res_status (fst (analyze_document M w d t force)) = ''completed'')"
proof (intro impI conjI)
  assume "force \<or> get_cached_analysis (redis w) d ''complete'' = None"
  then have miss: "(if \<not> force then get_cached_analysis (redis w) d ''complete'' else None) = None"
    by auto
  {
    assume "analyzer_exceptions M t \<noteq> []"
    then have "fst (run_analyses M d t w) = Inl (hd (analyzer_exceptions M t))"
      by (rule run_fails)
    then obtain w1 where run: "run_analyses M d t w = (Inl (hd (analyzer_exceptions M t)), w1)"
      by (cases "run_analyses M d t w") auto
    have k: "redis w1 = redis w" "mongodb w1 = mongodb w" "utcnow w1 = utcnow w"
      using run_analyses_keeps [of M d t w] run by simp_all
    have res: "analyze_document M w d t force =
                 (failed_result d (hd (analyzer_exceptions M t)) (utcnow w), w1)"
      by (simp add: analyze_document_def miss run k)
    show "fst (analyze_document M w d t force) =
            failed_result d (hd (analyzer_exceptions M t)) (utcnow w)"
      by (simp add: res)
    show "res_status (fst (analyze_document M w d t force)) = ''failed''"
      by (simp add: res failed_result_def)
    show "res_error (fst (analyze_document M w d t force)) =
            Some (str_of (hd (analyzer_exceptions M t)))"
      by (simp add: res failed_result_def)
    show "analysis_coll (mongodb (snd (analyze_document M w d t force))) = analysis_coll (mongodb w)"
      by (simp add: res k)
    show "entities_coll (mongodb (snd (analyze_document M w d t force))) = entities_coll (mongodb w)"
      by (simp add: res k)
    show "redis (snd (analyze_document M w d t force)) = redis w"
      by (simp add: res k)
  }
  {
    assume "analyzer_exceptions M t = []"
    from run_succeeds [OF this, of d w] obtain r w1
      where run: "run_analyses M d t w = (Inr r, w1)" and st: "res_status r = ''completed''"
      by (cases "run_analyses M d t w") auto
    show "res_status (fst (analyze_document M w d t force)) = ''completed''"
      by (simp add: analyze_document_def miss run st Let_def)
  }
qed

theorem analyzer_failure_witness:
  "analyzer_exceptions failing_models sample_text = [Raised ''model not loaded'']
   \<and> res_status (fst (analyze_document failing_models sample_world sample_doc_id sample_text True)) = ''failed''
   \<and> res_error (fst (analyze_document failing_models sample_world sample_doc_id sample_text True)) =
       Some ''model not loaded''
   \<and> analysis_coll (mongodb (snd (analyze_document failing_models sample_world sample_doc_id
         sample_text True))) = []
   \<and> analyzer_exceptions ok_models sample_text = []
   \<and> res_status (fst (analyze_document ok_models faulty_world sample_doc_id sample_text True)) = ''completed''"
proof -
  have h: "analyzer_exceptions failing_models sample_text = [Raised ''model not loaded'']"
    by (simp add: analyzer_exceptions_def raised_def failing_models_def ok_models_def truthy_str_def)
  have g: "analyzer_exceptions ok_models sample_text = []"
    by (simp add: analyzer_exceptions_def raised_def ok_models_def truthy_str_def)
  have a: "analysis_coll (mongodb sample_world) = []"
    by (simp add: sample_world_def)
  from analyzer_failure [of True sample_world sample_doc_id failing_models sample_text] h
  have "res_status (fst (analyze_document failing_models sample_world sample_doc_id sample_text True)) = ''failed''
    \<and> res_error (fst (analyze_document failing_models sample_world sample_doc_id sample_text True)) =
       Some ''model not loaded''
    \<and> analysis_coll (mongodb (snd (analyze_document failing_models sample_world sample_doc_id
         sample_text True))) = analysis_coll (mongodb sample_world)"
    by (simp add: failed_result_def)
  moreover from analyzer_failure [of True faulty_world sample_doc_id ok_models sample_text] g
  have "res_status (fst (analyze_document ok_models faulty_world sample_doc_id sample_text True)) = ''completed''"
    by simp
  ultimately show ?thesis using h g a by simp
qed

text \<open>
  The claim C1 as stated fails for an exception of a persistence call, which
  \<open>_save_analysis_results\<close> catches and logs by itself: where \<open>update_document\<close>
  raises, the run returns a \<open>completed\<close> record, the analysis record is already
  inserted, and the status of the document is left as it was.
\<close>

theorem persistence_failure_counterexample:
  "map_of (db_faults (mongodb faulty_world)) UpdateDocument = Some (Raised ''connection lost'')
   \<and> res_status (fst (analyze_document ok_models faulty_world sample_doc_id sample_text True)) = ''completed''
   \<and> length (analysis_coll (mongodb (snd (analyze_document ok_models faulty_world sample_doc_id
         sample_text True)))) = 1
   \<and> map (analysis_status \<circ> snd) (documents (mongodb (snd (analyze_document ok_models faulty_world
         sample_doc_id sample_text True)))) = [Some ''processing'']"
  by code_simp

text \<open>
  C4 (cache-first short-circuit). When \<open>force\<close> is false and the cache holds a record
  under the document's \<open>complete\<close> key, the engine returns that record and leaves the
  whole state as it was, for any analyzers: none is invoked (the trace \<open>invoked\<close> does
  not grow, and analyzers that would raise change nothing). Hence after a first call that
  completed with the cache reachable, the cache holds the first result, and a second call
  returns the same result and state, whatever the analyzers would do.
\<close>

theorem cache_first_short_circuit:
  "(get_cached_analysis (redis w) d ''complete'' = Some c \<longrightarrow>
      analyze_document M w d t False = (c, w))
   \<and> (rc_is_connected (redis w) \<and> rc_client_error (redis w) = None
       \<and> res_status (fst (analyze_document M w d t False)) = ''completed'' \<longrightarrow>
      get_cached_analysis (redis (snd (analyze_document M w d t False))) d ''complete'' =
        Some (fst (analyze_document M w d t False))
      \<and> analyze_document M' (snd (analyze_document M w d t False)) d t False =
        analyze_document M w d t False)"
proof (intro conjI impI)
  assume "get_cached_analysis (redis w) d ''complete'' = Some c"
  then show "analyze_document M w d t False = (c, w)" by (rule cache_hit)
next
  assume a: "rc_is_connected (redis w) \<and> rc_client_error (redis w) = None
       \<and> res_status (fst (analyze_document M w d t False)) = ''completed''"
  then show p: "get_cached_analysis (redis (snd (analyze_document M w d t False))) d ''complete'' =
        Some (fst (analyze_document M w d t False))"
    by (simp add: cache_populated)
  show "analyze_document M' (snd (analyze_document M w d t False)) d t False =
        analyze_document M w d t False"
    using cache_hit [OF p, of M' t] by simp
qed

theorem cache_first_short_circuit_witness:
  "rc_is_connected (redis sample_world) \<and> rc_client_error (redis sample_world) = None
   \<and> res_status (fst (analyze_document ok_models sample_world sample_doc_id sample_text False)) = ''completed''
   \<and> invoked (snd (analyze_document ok_models sample_world sample_doc_id sample_text False)) =
       [''extract_entities'', ''analyze_text_chunks'', ''classify_document'', ''extract_relationships'',
        ''extract_dates'', ''extract_key_phrases'', ''get_document_structure'',
        ''extract_document_metadata'']
   \<and> analyze_document failing_models
        (snd (analyze_document ok_models sample_world sample_doc_id sample_text False))
        sample_doc_id sample_text False =
      analyze_document ok_models sample_world sample_doc_id sample_text False"
proof -
  have h: "rc_is_connected (redis sample_world) \<and> rc_client_error (redis sample_world) = None
       \<and> res_status (fst (analyze_document ok_models sample_world sample_doc_id sample_text False)) = ''completed''"
    by code_simp
  have i: "invoked (snd (analyze_document ok_models sample_world sample_doc_id sample_text False)) =
       [''extract_entities'', ''analyze_text_chunks'', ''classify_document'', ''extract_relationships'',
        ''extract_dates'', ''extract_key_phrases'', ''get_document_structure'',
        ''extract_document_metadata'']"
    by code_simp
  from cache_first_short_circuit [of sample_world sample_doc_id _ ok_models sample_text failing_models] h
  have "analyze_document failing_models
        (snd (analyze_document ok_models sample_world sample_doc_id sample_text False))
        sample_doc_id sample_text False =
      analyze_document ok_models sample_world sample_doc_id sample_text False"
    by blast
  with h i show ?thesis by simp
qed

text \<open>
  C8 (confidence score), as amended. The confidence score is the arithmetic mean of those
  of classification confidence, sentiment average score and OCR confidence that are present
  and not zero, and 1/2 when there is none: each score is taken only if it is truthy.
\<close>

theorem confidence_score:
  "calculate_confidence a = mean_spec (filter (\<lambda>x. x \<noteq> 0) (present_scores_spec a))"
  by (auto simp: calculate_confidence_def mean_spec_def present_scores_spec_def truthy_num_def Let_def
      split: option.splits)

theorem confidence_score_witness:
  "calculate_confidence (failed_result sample_doc_id (Raised '''') 0) = 1 / 2
   \<and> present_scores_spec (failed_result sample_doc_id (Raised '''') 0) = []"
proof -
  have p: "present_scores_spec (failed_result sample_doc_id (Raised '''') 0) = []"
    by (simp add: present_scores_spec_def failed_result_def)
  from confidence_score [of "failed_result sample_doc_id (Raised '''') 0"] p show ?thesis
    by (simp add: mean_spec_def)
qed

text \<open>
  The claim C8 as stated fails when a present score is zero: with classification
  confidence 0 and sentiment average score 4/5 the mean of the present scores is 2/5, and
  the engine returns 4/5.
\<close>

theorem confidence_score_counterexample:
  "calculate_confidence zero_confidence_analysis = 4 / 5
   \<and> present_scores_spec zero_confidence_analysis = [0, 4 / 5]
   \<and> mean_spec (present_scores_spec zero_confidence_analysis) = 2 / 5"
  by (simp add: calculate_confidence_def zero_confidence_analysis_def failed_result_def
      present_scores_spec_def mean_spec_def truthy_num_def)

section \<open>Properties of the analysis route\<close>

text \<open>
  C9 (empty-input short-circuit). For every stored document whose text content is empty
  or missing, the analyze route answers with the error \<open>Document has no text content\<close>,
  schedules no analysis task and leaves the state as it was: the engine, which the route
  reaches only through that task, does not run and no analyzer is invoked.
\<close>

theorem empty_text_short_circuit:
  "get_document (mongodb w) (req_document_id request) = Inr (Some document) \<Longrightarrow>
   get_or (text_content document) [] = [] \<Longrightarrow>
   route_analyze_document w request =
     (Inl (HTTPException 400 ''Document has no text content''), [], w)"
  by (simp add: route_analyze_document_def)

theorem empty_text_short_circuit_witness:
  "get_document (mongodb empty_doc_world) sample_doc_id =
     Inr (Some \<lparr>text_content = Some [], analysis_status = Some ''pending'',
                 doc_error = None, doc_analyzed_at = None\<rparr>)
   \<and> route_analyze_document empty_doc_world \<lparr>req_document_id = sample_doc_id, req_force = None\<rparr> =
       (Inl (HTTPException 400 ''Document has no text content''), [], empty_doc_world)"
proof -
  have g: "get_document (mongodb empty_doc_world) (req_document_id \<lparr>req_document_id = sample_doc_id, req_force = None\<rparr>) =
     Inr (Some \<lparr>text_content = Some [], analysis_status = Some ''pending'',
                 doc_error = None, doc_analyzed_at = None\<rparr>)"
    by code_simp
  have e: "get_or (text_content \<lparr>text_content = Some [], analysis_status = Some ''pending'',
                 doc_error = None, doc_analyzed_at = None\<rparr>) [] = ([] :: unicode)"
    by (simp add: get_or_def)
  from empty_text_short_circuit [OF g e] g show ?thesis by simp
qed

end
